theory Spec2Isabelle
  imports Main "HOL-Library.Sublist"
begin

section \<open>JavaScript strings\<close>

text \<open>
  A JavaScript string is modelled as a \<^typ>\<open>string\<close>. The source's text outside ASCII
  (the warning sign, the coloured circles, the two Chinese characters in the reasons) is
  carried as its UTF-8 bytes. All patterns and brand names of the heuristic are ASCII.
\<close>

definition startsWith :: "string \<Rightarrow> string \<Rightarrow> bool" where
  "startsWith s p = (take (length p) s = p)"

text \<open>\<^verbatim>\<open>s.includes(p)\<close>: \<open>p\<close> occurs in \<open>s\<close> as a contiguous substring.\<close>

fun str_includes :: "string \<Rightarrow> string \<Rightarrow> bool" where
  "str_includes [] p = (p = [])"
| "str_includes (c # cs) p = (startsWith (c # cs) p \<or> str_includes cs p)"

text \<open>\<^verbatim>\<open>s.replace(/a/g, 'b')\<close> for single characters \<open>a\<close> and \<open>b\<close>.\<close>

definition replace_char :: "char \<Rightarrow> char \<Rightarrow> string \<Rightarrow> string" where
  "replace_char a b s = map (\<lambda>c. if c = a then b else c) s"

text \<open>The character class \<^verbatim>\<open>\d\<close> of a JavaScript regular expression: the ASCII digits.\<close>

definition is_digit :: "char \<Rightarrow> bool" where
  "is_digit c = (48 \<le> (of_char c :: nat) \<and> (of_char c :: nat) \<le> 57)"

definition has_digit :: "string \<Rightarrow> bool" where
  "has_digit s = list_ex is_digit s"

definition apostrophe :: string where
  "apostrophe = [CHR 0x27]"

definition warn :: string where
  "warn = [CHR 0xE2, CHR 0x9A, CHR 0xA0, CHR 0xEF, CHR 0xB8, CHR 0x8F]"

definition mc :: string where
  "mc = [CHR 0xE5, CHR 0x86, CHR 0x92, CHR 0xE5, CHR 0x85, CHR 0x85]"

definition HIGH_RISK :: string where
  "HIGH_RISK = [CHR 0xF0, CHR 0x9F, CHR 0x94, CHR 0xB4] @ '' HIGH RISK''"

definition MEDIUM_RISK :: string where
  "MEDIUM_RISK = [CHR 0xF0, CHR 0x9F, CHR 0x9F, CHR 0xA1] @ '' MEDIUM RISK''"

section \<open>The domain heuristic: \<^verbatim>\<open>checkSuspiciousDomain\<close>\<close>

text \<open>
  \<^verbatim>\<open>url.replace(/^https?:\/\//, '').split('/')[0]\<close>, then \<^verbatim>\<open>.replace(/^www\./, '')\<close>.
  The argument is a string, so none of these calls throws and the \<^verbatim>\<open>catch\<close> branch of
  the function is not taken.
\<close>

definition strip_scheme :: "string \<Rightarrow> string" where
  "strip_scheme u =
     (if startsWith u ''http://'' then drop 7 u
      else if startsWith u ''https://'' then drop 8 u
      else u)"

definition host_segment :: "string \<Rightarrow> string" where
  "host_segment s = takeWhile (\<lambda>c. c \<noteq> CHR ''/'') s"

definition strip_www :: "string \<Rightarrow> string" where
  "strip_www d = (if startsWith d ''www.'' then drop 4 d else d)"

definition extract_domain :: "string \<Rightarrow> string" where
  "extract_domain u = strip_www (host_segment (strip_scheme u))"

record pattern_item =
  pattern :: string
  item_score :: int
  brand :: string
  reason :: string

definition suspiciousPatterns :: "pattern_item list" where
  "suspiciousPatterns = [
     \<lparr>pattern = ''rnicrosoft'', item_score = 95, brand = ''Microsoft'', reason = ''rn'' @ mc @ '' m (rn looks like m)''\<rparr>,
     \<lparr>pattern = ''micr0soft'', item_score = 90, brand = ''Microsoft'', reason = ''Zero'' @ mc @ '' o (0 looks like o)''\<rparr>,
     \<lparr>pattern = ''micros0ft'', item_score = 90, brand = ''Microsoft'', reason = ''Zero'' @ mc @ '' o (0 looks like o)''\<rparr>,
     \<lparr>pattern = ''mlcrosoft'', item_score = 85, brand = ''Microsoft'', reason = ''l'' @ mc @ '' i (l looks like i)''\<rparr>,
     \<lparr>pattern = ''rnicro'', item_score = 85, brand = ''Microsoft'', reason = ''rn'' @ mc @ '' m''\<rparr>,
     \<lparr>pattern = ''g00gle'', item_score = 95, brand = ''Google'', reason = ''Zeros'' @ mc @ '' oo (00 looks like oo)''\<rparr>,
     \<lparr>pattern = ''go0gle'', item_score = 90, brand = ''Google'', reason = ''Zero'' @ mc @ '' o (0 looks like o)''\<rparr>,
     \<lparr>pattern = ''g0ogle'', item_score = 90, brand = ''Google'', reason = ''Zero'' @ mc @ '' o (0 looks like o)''\<rparr>,
     \<lparr>pattern = ''googl'', item_score = 70, brand = ''Google'', reason = ''Missing letter''\<rparr>,
     \<lparr>pattern = ''paypa1'', item_score = 95, brand = ''PayPal'', reason = ''Number 1'' @ mc @ '' l (1 looks like l)''\<rparr>,
     \<lparr>pattern = ''paypai'', item_score = 90, brand = ''PayPal'', reason = ''i'' @ mc @ '' l (i looks like l)''\<rparr>,
     \<lparr>pattern = ''paypal'', item_score = 0, brand = ''PayPal'', reason = ''Legitimate''\<rparr>,
     \<lparr>pattern = ''faceb00k'', item_score = 95, brand = ''Facebook'', reason = ''Zeros'' @ mc @ '' oo (00 looks like oo)''\<rparr>,
     \<lparr>pattern = ''faceb0ok'', item_score = 90, brand = ''Facebook'', reason = ''Zero'' @ mc @ '' o (0 looks like o)''\<rparr>,
     \<lparr>pattern = ''face-book'', item_score = 85, brand = ''Facebook'', reason = ''Hyphenated''\<rparr>,
     \<lparr>pattern = ''amaz0n'', item_score = 95, brand = ''Amazon'', reason = ''Zero'' @ mc @ '' o (0 looks like o)''\<rparr>,
     \<lparr>pattern = ''amazn'', item_score = 80, brand = ''Amazon'', reason = ''Missing o''\<rparr>,
     \<lparr>pattern = ''arnazon'', item_score = 90, brand = ''Amazon'', reason = ''rn'' @ mc @ '' m''\<rparr>,
     \<lparr>pattern = ''app1e'', item_score = 95, brand = ''Apple'', reason = ''Number 1'' @ mc @ '' l (1 looks like l)''\<rparr>,
     \<lparr>pattern = ''appple'', item_score = 85, brand = ''Apple'', reason = ''Double p'' @ mc\<rparr>,
     \<lparr>pattern = ''aple'', item_score = 70, brand = ''Apple'', reason = ''Missing p''\<rparr>,
     \<lparr>pattern = ''netfl1x'', item_score = 95, brand = ''Netflix'', reason = ''Number 1'' @ mc @ '' i (1 looks like i)''\<rparr>,
     \<lparr>pattern = ''netfllx'', item_score = 85, brand = ''Netflix'', reason = ''Double l'' @ mc\<rparr>,
     \<lparr>pattern = ''chase'', item_score = 0, brand = ''Chase'', reason = ''Legitimate''\<rparr>,
     \<lparr>pattern = ''chase-bank'', item_score = 75, brand = ''Chase'', reason = ''Hyphenated''\<rparr>,
     \<lparr>pattern = ''instagrarn'', item_score = 90, brand = ''Instagram'', reason = ''rn'' @ mc @ '' m''\<rparr>,
     \<lparr>pattern = ''linkedln'', item_score = 90, brand = ''LinkedIn'', reason = ''ln'' @ mc @ '' in''\<rparr>,
     \<lparr>pattern = ''tw1tter'', item_score = 90, brand = ''Twitter'', reason = ''Number 1'' @ mc @ '' i''\<rparr>,
     \<lparr>pattern = ''twltter'', item_score = 85, brand = ''Twitter'', reason = ''l'' @ mc @ '' i''\<rparr>
  ]"

text \<open>
  The \<^verbatim>\<open>for\<close> loop over the table returns at the first entry whose pattern the domain
  includes; \<open>first_match\<close> is that entry, if there is one.
\<close>

definition first_match :: "string \<Rightarrow> pattern_item option" where
  "first_match d = find (\<lambda>item. str_includes d (pattern item)) suspiciousPatterns"

text \<open>The six global replacements, in the source's order.\<close>

definition normalize :: "string \<Rightarrow> string" where
  "normalize d =
     replace_char (CHR ''7'') (CHR ''t'')
       (replace_char (CHR ''5'') (CHR ''s'')
         (replace_char (CHR ''4'') (CHR ''a'')
           (replace_char (CHR ''3'') (CHR ''e'')
             (replace_char (CHR ''1'') (CHR ''l'')
               (replace_char (CHR ''0'') (CHR ''o'') d)))))"

definition brands :: "string list" where
  "brands = [''microsoft'', ''google'', ''paypal'', ''facebook'', ''amazon'', ''apple'', ''netflix'']"

text \<open>The second loop: the first brand that the normalized domain includes and the raw one does not.\<close>

definition first_brand :: "string \<Rightarrow> string option" where
  "first_brand d = find (\<lambda>b. str_includes (normalize d) b \<and> \<not> str_includes d b) brands"

text \<open>What the function returns: \<^verbatim>\<open>{ suspicious: false }\<close> or a suspicious object with three more fields.\<close>

datatype domain_check =
  NotSuspicious
| Suspicious (dc_score: int) (dc_risk_level: string) (dc_findings: "string list")

fun suspicious :: "domain_check \<Rightarrow> bool" where
  "suspicious NotSuspicious = False"
| "suspicious (Suspicious s r f) = True"

definition table_hit :: "string \<Rightarrow> pattern_item \<Rightarrow> domain_check" where
  "table_hit d item =
     (if item_score item = 0 then NotSuspicious
      else Suspicious (item_score item)
             (if item_score item \<ge> 70 then HIGH_RISK else MEDIUM_RISK)
             [warn @ '' Domain '' @ apostrophe @ d @ apostrophe @ '' impersonates '' @ brand item,
              warn @ '' '' @ reason item,
              warn @ '' Site appears down but domain is suspicious''])"

definition substitution_hit :: "string \<Rightarrow> string \<Rightarrow> domain_check" where
  "substitution_hit d b =
     Suspicious 85 HIGH_RISK
       [warn @ '' Domain '' @ apostrophe @ d @ apostrophe @ '' uses number substitution to mimic ''
          @ apostrophe @ b @ apostrophe,
        warn @ '' Site appears down but domain is clearly suspicious'']"

definition checkSuspiciousDomain :: "string \<Rightarrow> domain_check" where
  "checkSuspiciousDomain u =
     (let d = extract_domain u in
      case first_match d of
        Some item \<Rightarrow> table_hit d item
      | None \<Rightarrow>
          if has_digit d then
            (case first_brand d of
               Some b \<Rightarrow> substitution_hit d b
             | None \<Rightarrow> NotSuspicious)
          else NotSuspicious)"

section \<open>Scan results and the state of the extension\<close>

text \<open>
  A scan result is the object the service returns as JSON, or the one built from the
  heuristic. The code tests \<^verbatim>\<open>result.score !== undefined\<close>, so the score is optional;
  the other two fields are as the service's contract gives them. Instants are
  milliseconds since the epoch (what \<^verbatim>\<open>toISOString\<close> keeps and \<^verbatim>\<open>getTime\<close> reads back).
\<close>

record scan_result =
  score :: "int option"
  risk_level :: string
  findings :: "string list"

record history_entry =
  h_url :: string
  h_score :: int
  h_risk_level :: string
  h_timestamp :: int

record last_scan =
  ls_tabId :: int
  ls_url :: string
  ls_result :: scan_result
  ls_timestamp :: int

record settings_rec =
  autoScan :: bool
  showWarnings :: bool
  scanHistory :: "history_entry list"

datatype stored = ScanV scan_result | LastScanV last_scan | SettingsV settings_rec

datatype icon = safe | warning | danger

text \<open>
  \<open>storage\<close> is \<^verbatim>\<open>chrome.storage.local\<close>, \<open>settings\<close> the global variable of that name,
  \<open>icons\<close> the icon last set for each tab; \<open>banners\<close> and \<open>messages\<close> log the calls of
  \<^verbatim>\<open>showWarningSafely\<close> and the \<^verbatim>\<open>scanComplete\<close> messages, most recent first.
\<close>

record state =
  storage :: "string \<rightharpoonup> stored"
  settings :: settings_rec
  icons :: "int \<rightharpoonup> icon"
  banners :: "(int \<times> int option) list"
  messages :: "(int \<times> scan_result) list"

subsection \<open>Storage keys\<close>

text \<open>The template literal \<^verbatim>\<open>`scan_${tabId}`\<close> writes the tab id in decimal.\<close>

definition digit_of :: "nat \<Rightarrow> char" where
  "digit_of n = char_of (48 + n)"

fun show_nat :: "nat \<Rightarrow> string" where
  "show_nat n = (if n < 10 then [digit_of n] else show_nat (n div 10) @ [digit_of (n mod 10)])"

declare show_nat.simps [simp del]

definition show_int :: "int \<Rightarrow> string" where
  "show_int i = (if i < 0 then CHR ''-'' # show_nat (nat (- i)) else show_nat (nat i))"

definition tab_key :: "int \<Rightarrow> string" where
  "tab_key tabId = ''scan_'' @ show_int tabId"

definition url_key :: "string \<Rightarrow> string" where
  "url_key u = ''scan_'' @ u"

subsection \<open>The result store\<close>

definition clearTabCache :: "int \<Rightarrow> state \<Rightarrow> state" where
  "clearTabCache tabId st = st\<lparr>storage := (storage st)(tab_key tabId := None)\<rparr>"

text \<open>\<^verbatim>\<open>unshift\<close> the entry, then one \<^verbatim>\<open>pop\<close> if the length is over 20.\<close>

definition push_history :: "history_entry \<Rightarrow> history_entry list \<Rightarrow> history_entry list" where
  "push_history e h = (if length (e # h) > 20 then butlast (e # h) else e # h)"

text \<open>
  \<open>t_set\<close> is the clock when the argument of \<^verbatim>\<open>storage.set\<close> is built, \<open>t_cb\<close> the
  clock when its callback runs.
\<close>

definition storeScanResult :: "int \<Rightarrow> string \<Rightarrow> scan_result \<Rightarrow> int \<Rightarrow> int \<Rightarrow> state \<Rightarrow> state" where
  "storeScanResult tabId u r t_set t_cb st =
     (let st1 = st\<lparr>storage := (storage st)
                  (tab_key tabId \<mapsto> ScanV r,
                   url_key u \<mapsto> ScanV r,
                   ''lastScan'' \<mapsto> LastScanV \<lparr>ls_tabId = tabId, ls_url = u, ls_result = r,
                                              ls_timestamp = t_set\<rparr>)\<rparr>
      in case score r of
           None \<Rightarrow> st1
         | Some s \<Rightarrow>
             (let sett = (settings st1)\<lparr>scanHistory :=
                           push_history \<lparr>h_url = u, h_score = s, h_risk_level = risk_level r,
                                         h_timestamp = t_cb\<rparr> (scanHistory (settings st1))\<rparr>
              in st1\<lparr>settings := sett, storage := (storage st1)(''settings'' \<mapsto> SettingsV sett)\<rparr>))"

subsection \<open>The icon and the banner\<close>

text \<open>\<^verbatim>\<open>score >= k\<close> in JavaScript: false when the score is \<^verbatim>\<open>undefined\<close>.\<close>

fun js_ge :: "int option \<Rightarrow> int \<Rightarrow> bool" where
  "js_ge None k = False"
| "js_ge (Some s) k = (s \<ge> k)"

definition safeSetIcon :: "int \<Rightarrow> icon \<Rightarrow> state \<Rightarrow> state" where
  "safeSetIcon tabId iconPath st = st\<lparr>icons := (icons st)(tabId \<mapsto> iconPath)\<rparr>"

definition iconPath_for :: "int option \<Rightarrow> icon" where
  "iconPath_for sc = (if js_ge sc 70 then danger else if js_ge sc 40 then warning else safe)"

definition updateIconForScore :: "int option \<Rightarrow> int \<Rightarrow> state \<Rightarrow> state" where
  "updateIconForScore sc tabId st = safeSetIcon tabId (iconPath_for sc) st"

definition showWarningSafely :: "int \<Rightarrow> int option \<Rightarrow> state \<Rightarrow> state" where
  "showWarningSafely tabId sc st = st\<lparr>banners := (tabId, sc) # banners st\<rparr>"

text \<open>The label \<^verbatim>\<open>updateDisplay\<close> of the popup writes for a score.\<close>

datatype popup_level = CRITICAL | MEDIUM | SAFE

definition updateDisplay_level :: "int option \<Rightarrow> popup_level" where
  "updateDisplay_level sc = (if js_ge sc 70 then CRITICAL else if js_ge sc 40 then MEDIUM else SAFE)"

subsection \<open>\<^verbatim>\<open>scanUrl\<close>\<close>

text \<open>
  \<^verbatim>\<open>fetch\<close> either rejects (transport failure, or the abort after 5 seconds) or
  resolves with a response; the body of a response is \<open>None\<close> when it is not JSON, so that
  \<^verbatim>\<open>response.json()\<close> rejects.
\<close>

datatype response = Response (status: int) (body: "scan_result option")

datatype fetch_outcome = Rejected | Resolved response

definition ok :: "response \<Rightarrow> bool" where
  "ok resp = (200 \<le> status resp \<and> status resp \<le> 299)"

datatype error = ApiNotReachable | ApiError int | JsonError

text \<open>
  What both successful paths of \<^verbatim>\<open>scanUrl\<close> do with their result: store it, set the icon,
  show the banner for a high score when warnings are on, notify the popup.
\<close>

definition settle :: "int \<Rightarrow> string \<Rightarrow> scan_result \<Rightarrow> int \<Rightarrow> int \<Rightarrow> state \<Rightarrow> state" where
  "settle tabId u r t_set t_cb st =
     (let st1 = storeScanResult tabId u r t_set t_cb st;
          st2 = updateIconForScore (score r) tabId st1;
          st3 = (if js_ge (score r) 70 \<and> showWarnings (settings st2)
                 then showWarningSafely tabId (score r) st2 else st2)
      in st3\<lparr>messages := (tabId, r) # messages st3\<rparr>)"

text \<open>The first two steps of a scan: clear the tab's entry, set the safe icon.\<close>

definition scan_started :: "int \<Rightarrow> state \<Rightarrow> state" where
  "scan_started tabId st = safeSetIcon tabId safe (clearTabCache tabId st)"

text \<open>
  The \<^verbatim>\<open>try\<close> block: the state it leaves, and either the error it throws or the result
  it settled.
\<close>

definition scanUrl_try ::
  "string \<Rightarrow> int \<Rightarrow> fetch_outcome \<Rightarrow> int \<Rightarrow> int \<Rightarrow> state \<Rightarrow> state \<times> (error + scan_result)" where
  "scanUrl_try u tabId outcome t_set t_cb st =
     (let st0 = scan_started tabId st in
      case outcome of
        Rejected \<Rightarrow> (st0, Inl ApiNotReachable)
      | Resolved resp \<Rightarrow>
          if \<not> ok resp then
            (case checkSuspiciousDomain u of
               Suspicious s rl f \<Rightarrow>
                 (let r = \<lparr>score = Some s, risk_level = rl, findings = f\<rparr>
                  in (settle tabId u r t_set t_cb st0, Inr r))
             | NotSuspicious \<Rightarrow> (st0, Inl (ApiError (status resp))))
          else
            (case body resp of
               None \<Rightarrow> (st0, Inl JsonError)
             | Some r \<Rightarrow> (settle tabId u r t_set t_cb st0, Inr r)))"

text \<open>The whole function: the \<^verbatim>\<open>catch\<close> block sets the safe icon and nothing else.\<close>

definition scanUrl :: "string \<Rightarrow> int \<Rightarrow> fetch_outcome \<Rightarrow> int \<Rightarrow> int \<Rightarrow> state \<Rightarrow> state" where
  "scanUrl u tabId outcome t_set t_cb st =
     (case scanUrl_try u tabId outcome t_set t_cb st of
        (st', Inl e) \<Rightarrow> safeSetIcon tabId safe st'
      | (st', Inr r) \<Rightarrow> st')"

subsection \<open>The \<^verbatim>\<open>getCurrentScan\<close> query\<close>

text \<open>
  The test of the handler: the tab's entry is there, the last-scan pointer is there and
  names this tab, and it is less than 30000 ms old.
\<close>

definition fresh :: "state \<Rightarrow> int \<Rightarrow> int \<Rightarrow> bool" where
  "fresh st tabId now =
     (case storage st (tab_key tabId) of
        None \<Rightarrow> False
      | Some scan \<Rightarrow>
          (case storage st ''lastScan'' of
             Some (LastScanV lastScan) \<Rightarrow>
               ls_tabId lastScan = tabId \<and> now - ls_timestamp lastScan < 30000
           | _ \<Rightarrow> False))"

record tab =
  tab_id :: int
  tab_url :: "string option"

subsection \<open>Scans in flight\<close>

text \<open>
  Scans are not serialized: while one scan waits for its fetch, other scans, for the same
  tab or another, run their steps. Seen from the state, a scan does one of three things at
  a time: it starts (it clears the entry of its tab and sets the safe icon), it settles
  its result, or it fails (the \<^verbatim>\<open>catch\<close> block sets the safe icon). A settle is taken as
  one step.
\<close>

datatype scan_event =
  Started int
| Settled int string scan_result int int
| Failed int

fun apply_event :: "scan_event \<Rightarrow> state \<Rightarrow> state" where
  "apply_event (Started tabId) st = scan_started tabId st"
| "apply_event (Settled tabId u r t_set t_cb) st = settle tabId u r t_set t_cb st"
| "apply_event (Failed tabId) st = safeSetIcon tabId safe st"

fun run_events :: "state \<Rightarrow> scan_event list \<Rightarrow> state" where
  "run_events st [] = st"
| "run_events st (e # es) = run_events (apply_event e st) es"

text \<open>
  The step with which a started scan ends, given the outcome of its fetch: what the
  \<^verbatim>\<open>try\<close> block of \<^verbatim>\<open>scanUrl\<close> does after the fetch, or its \<^verbatim>\<open>catch\<close> block.
\<close>

definition finish_event :: "string \<Rightarrow> int \<Rightarrow> fetch_outcome \<Rightarrow> int \<Rightarrow> int \<Rightarrow> scan_event" where
  "finish_event u tabId outcome t_set t_cb =
     (case outcome of
        Rejected \<Rightarrow> Failed tabId
      | Resolved resp \<Rightarrow>
          if \<not> ok resp then
            (case checkSuspiciousDomain u of
               Suspicious s rl f \<Rightarrow>
                 Settled tabId u \<lparr>score = Some s, risk_level = rl, findings = f\<rparr> t_set t_cb
             | NotSuspicious \<Rightarrow> Failed tabId)
          else
            (case body resp of
               None \<Rightarrow> Failed tabId
             | Some r \<Rightarrow> Settled tabId u r t_set t_cb))"

text \<open>The results that the settling steps of a list of steps store, in their order.\<close>

fun settled_results :: "scan_event list \<Rightarrow> scan_result list" where
  "settled_results [] = []"
| "settled_results (Settled tabId u r t_set t_cb # es) = r # settled_results es"
| "settled_results (Started tabId # es) = settled_results es"
| "settled_results (Failed tabId # es) = settled_results es"

text \<open>
  The handler, for the active tab if there is one. When the record is fresh it answers
  with the tab's entry at once. When it is not and the tab has a URL, it starts a scan and
  answers 1.5 seconds later with the tab's entry as it is then. \<open>in_grace\<close> says whether
  the scan of the query has ended by then; \<open>before\<close> are the steps of other scans that
  happen after the start of the query's scan and before its end, \<open>after\<close> those between
  its end and the read. When \<open>in_grace\<close> is false, both lists are steps before the read
  and the query's scan is still in flight when the answer is sent. The state returned is
  the one at the time of the answer.
\<close>

definition getCurrentScan ::
  "tab option \<Rightarrow> int \<Rightarrow> fetch_outcome \<Rightarrow> int \<Rightarrow> int \<Rightarrow> bool \<Rightarrow> scan_event list \<Rightarrow> scan_event list
     \<Rightarrow> state \<Rightarrow> stored option \<times> state" where
  "getCurrentScan active now outcome t_set t_cb in_grace before after st =
     (case active of
        None \<Rightarrow> (None, st)
      | Some tb \<Rightarrow>
          if fresh st (tab_id tb) now then (storage st (tab_key (tab_id tb)), st)
          else
            (case tab_url tb of
               None \<Rightarrow> (None, st)
             | Some u \<Rightarrow>
                 if u = [] then (None, st)
                 else
                   (let st1 = run_events (scan_started (tab_id tb) st) before;
                        st2 = (if in_grace
                               then apply_event (finish_event u (tab_id tb) outcome t_set t_cb) st1
                               else st1);
                        st3 = run_events st2 after
                    in (storage st3 (tab_key (tab_id tb)), st3))))"

section \<open>The specification's digit map\<close>


section \<open>Start-up state and sequences of writes\<close>

text \<open>The default settings of the source, before anything is loaded or stored.\<close>

definition default_settings :: settings_rec where
  "default_settings = \<lparr>autoScan = True, showWarnings = True, scanHistory = []\<rparr>"

definition initial_state :: state where
  "initial_state =
     \<lparr>storage = Map.empty, settings = default_settings, icons = Map.empty,
      banners = [], messages = []\<rparr>"

text \<open>One call of \<^verbatim>\<open>storeScanResult\<close> with its arguments and clock readings.\<close>

record write_call =
  w_tabId :: int
  w_url :: string
  w_result :: scan_result
  w_t_set :: int
  w_t_cb :: int

definition apply_write :: "write_call \<Rightarrow> state \<Rightarrow> state" where
  "apply_write w st =
     storeScanResult (w_tabId w) (w_url w) (w_result w) (w_t_set w) (w_t_cb w) st"

fun run_writes :: "state \<Rightarrow> write_call list \<Rightarrow> state" where
  "run_writes st [] = st"
| "run_writes st (w # ws) = run_writes (apply_write w st) ws"

text \<open>The history entry a write makes, if its result has a score.\<close>

definition entry_of :: "write_call \<Rightarrow> history_entry option" where
  "entry_of w =
     (case score (w_result w) of
        None \<Rightarrow> None
      | Some s \<Rightarrow> Some \<lparr>h_url = w_url w, h_score = s, h_risk_level = risk_level (w_result w),
                        h_timestamp = w_t_cb w\<rparr>)"

definition history_entries :: "write_call list \<Rightarrow> history_entry list" where
  "history_entries ws = List.map_filter entry_of ws"

definition has_score :: "write_call \<Rightarrow> bool" where
  "has_score w = (score (w_result w) \<noteq> None)"

text \<open>Twenty-one writes for one tab, with scores 1 to 21, one second apart.\<close>

definition sample_result :: "int \<Rightarrow> scan_result" where
  "sample_result i = \<lparr>score = Some i, risk_level = ''SAFE'', findings = []\<rparr>"

definition sample_writes :: "write_call list" where
  "sample_writes =
     map (\<lambda>i. \<lparr>w_tabId = 1, w_url = ''https://example.com/'', w_result = sample_result i,
               w_t_set = 1000 * i, w_t_cb = 1000 * i + 1\<rparr>) [1..21]"

text \<open>A result as the service may send it without a score.\<close>

definition unscored_result :: scan_result where
  "unscored_result = \<lparr>score = None, risk_level = ''SAFE'', findings = []\<rparr>"

section \<open>Substring search\<close>

lemma startsWith_prefix: "startsWith s p = prefix p s"
proof
  assume "startsWith s p"
  then have "take (length p) s = p" by (simp add: startsWith_def)
  then show "prefix p s" by (metis take_is_prefix)
next
  assume "prefix p s"
  then obtain zs where "s = p @ zs" by (auto simp: prefix_def)
  then show "startsWith s p" by (simp add: startsWith_def)
qed

lemma str_includes_sublist: "str_includes s p = sublist p s"
  by (induction s) (auto simp: startsWith_prefix sublist_Cons_right)

section \<open>The table and what it can return\<close>

lemma table_scores:
  "item \<in> set suspiciousPatterns \<Longrightarrow> item_score item = 0 \<or> item_score item \<ge> 70"
  by (auto simp: suspiciousPatterns_def)

lemma first_match_in_table: "first_match d = Some item \<Longrightarrow> item \<in> set suspiciousPatterns"
  by (auto simp: first_match_def find_Some_iff)

lemma table_hit_high:
  "item \<in> set suspiciousPatterns \<Longrightarrow> table_hit d item = Suspicious s r f \<Longrightarrow> 70 \<le> s \<and> r = HIGH_RISK"
  using table_scores [of item] by (auto simp: table_hit_def split: if_splits)

lemma heuristic_high:
  "checkSuspiciousDomain u = Suspicious s r f \<Longrightarrow> 70 \<le> s \<and> r = HIGH_RISK"
  by (auto simp: checkSuspiciousDomain_def Let_def substitution_hit_def
           split: option.splits if_splits
           dest!: first_match_in_table table_hit_high)

section \<open>Severity bands\<close>

lemma iconPath_bands:
  "(iconPath_for (Some s) = danger \<longleftrightarrow> 70 \<le> s)
   \<and> (iconPath_for (Some s) = warning \<longleftrightarrow> 40 \<le> s \<and> s < 70)
   \<and> (iconPath_for (Some s) = safe \<longleftrightarrow> s < 40)"
  by (simp add: iconPath_for_def)

lemma updateDisplay_bands:
  "(updateDisplay_level (Some s) = CRITICAL \<longleftrightarrow> 70 \<le> s)
   \<and> (updateDisplay_level (Some s) = MEDIUM \<longleftrightarrow> 40 \<le> s \<and> s < 70)
   \<and> (updateDisplay_level (Some s) = SAFE \<longleftrightarrow> s < 40)"
  by (simp add: updateDisplay_level_def)

lemma updateIconForScore_icon:
  "icons (updateIconForScore sc tabId st) tabId = Some (iconPath_for sc)"
  by (simp add: updateIconForScore_def safeSetIcon_def)

text \<open>
  Claim C1. For every integer score \<open>s\<close>, the icon that \<^verbatim>\<open>updateIconForScore\<close> sets and
  the level that the popup's \<^verbatim>\<open>updateDisplay\<close> shows are the high band iff \<open>s \<ge> 70\<close>, the
  medium band iff \<open>40 \<le> s < 70\<close>, and the safe band iff \<open>s < 40\<close>; 40 and 70 fall into the
  medium and the high band. Every result the heuristic constructs is consistent with
  these bands: its score is at least 70 and its risk level is the high one.
\<close>

theorem severity_mapping:
  "(iconPath_for (Some s) = danger \<longleftrightarrow> 70 \<le> s)
   \<and> (iconPath_for (Some s) = warning \<longleftrightarrow> 40 \<le> s \<and> s < 70)
   \<and> (iconPath_for (Some s) = safe \<longleftrightarrow> s < 40)
   \<and> iconPath_for (Some 40) = warning
   \<and> iconPath_for (Some 70) = danger
   \<and> icons (updateIconForScore (Some s) tabId st) tabId = Some (iconPath_for (Some s))
   \<and> (updateDisplay_level (Some s) = CRITICAL \<longleftrightarrow> 70 \<le> s)
   \<and> (updateDisplay_level (Some s) = MEDIUM \<longleftrightarrow> 40 \<le> s \<and> s < 70)
   \<and> (updateDisplay_level (Some s) = SAFE \<longleftrightarrow> s < 40)
   \<and> (suspicious (checkSuspiciousDomain u) \<longrightarrow>
        70 \<le> dc_score (checkSuspiciousDomain u)
        \<and> dc_risk_level (checkSuspiciousDomain u) = HIGH_RISK
        \<and> iconPath_for (Some (dc_score (checkSuspiciousDomain u))) = danger)"
proof -
  have heur: "suspicious (checkSuspiciousDomain u) \<longrightarrow>
        70 \<le> dc_score (checkSuspiciousDomain u)
        \<and> dc_risk_level (checkSuspiciousDomain u) = HIGH_RISK
        \<and> iconPath_for (Some (dc_score (checkSuspiciousDomain u))) = danger"
  proof (cases "checkSuspiciousDomain u")
    case NotSuspicious
    then show ?thesis by simp
  next
    case (Suspicious s' r f)
    from heuristic_high [OF this] Suspicious show ?thesis
      by (simp add: iconPath_for_def)
  qed
  have fixed: "iconPath_for (Some 40) = warning" "iconPath_for (Some 70) = danger"
    by (simp_all add: iconPath_for_def)
  from iconPath_bands [of s] updateDisplay_bands [of s] fixed heur
    updateIconForScore_icon [of "Some s" tabId st]
  show ?thesis by blast
qed

theorem severity_mapping_witness:
  "suspicious (checkSuspiciousDomain ''micr0soft.com'')
   \<and> 70 \<le> dc_score (checkSuspiciousDomain ''micr0soft.com'')
   \<and> dc_risk_level (checkSuspiciousDomain ''micr0soft.com'') = HIGH_RISK
   \<and> iconPath_for (Some (dc_score (checkSuspiciousDomain ''micr0soft.com''))) = danger"
proof -
  have h: "suspicious (checkSuspiciousDomain ''micr0soft.com'')"
    by code_simp
  with severity_mapping [where u = "''micr0soft.com''"] show ?thesis
    by blast
qed

section \<open>The heuristic on the four domains of the specification\<close>









section \<open>The substitution pass\<close>





lemma check_table:
  "first_match (extract_domain u) = Some item \<Longrightarrow>
   checkSuspiciousDomain u = table_hit (extract_domain u) item"
  by (simp add: checkSuspiciousDomain_def)







section \<open>The Chase entries of the table\<close>

lemma chase_in_chase_bank: "str_includes d ''chase-bank'' \<Longrightarrow> str_includes d ''chase''"
proof -
  assume "str_includes d ''chase-bank''"
  then obtain ps ss where "d = ps @ ''chase-bank'' @ ss"
    by (auto simp: str_includes_sublist sublist_def)
  then have "d = ps @ ''chase'' @ (''-bank'' @ ss)" by simp
  then show ?thesis unfolding str_includes_sublist sublist_def by blast
qed

lemma first_match_not_chase_bank:
  "first_match d = Some item \<Longrightarrow> pattern item \<noteq> ''chase-bank''"
  by (auto simp: first_match_def suspiciousPatterns_def chase_in_chase_bank split: if_splits)

lemma table_chase:
  "item \<in> set suspiciousPatterns \<Longrightarrow> brand item = ''Chase'' \<Longrightarrow>
   pattern item = ''chase-bank'' \<or> item_score item = 0"
  by (auto simp: suspiciousPatterns_def)

lemma first_match_chase:
  "first_match d = Some item \<Longrightarrow> brand item = ''Chase'' \<Longrightarrow> item_score item = 0"
  using first_match_in_table [of d item] first_match_not_chase_bank [of d item] table_chase [of item]
  by blast

lemma check_chase:
  "first_match (extract_domain u) = Some item \<Longrightarrow> brand item = ''Chase'' \<Longrightarrow>
   checkSuspiciousDomain u = NotSuspicious"
  using first_match_chase [of "extract_domain u" item]
  by (simp add: check_table table_hit_def)

lemma brands_no_chase: "''chase'' \<notin> set brands \<and> ''Chase'' \<notin> set brands"
  by (simp add: brands_def)

lemma first_brand_in_brands: "first_brand d = Some b \<Longrightarrow> b \<in> set brands"
  by (auto simp: first_brand_def find_Some_iff)

lemma suspicious_source:
  "suspicious (checkSuspiciousDomain u) \<Longrightarrow>
   (\<exists>item. first_match (extract_domain u) = Some item \<and> brand item \<noteq> ''Chase''
           \<and> checkSuspiciousDomain u = table_hit (extract_domain u) item)
   \<or> (\<exists>b. first_match (extract_domain u) = None \<and> first_brand (extract_domain u) = Some b
           \<and> b \<in> set brands \<and> b \<noteq> ''chase'' \<and> b \<noteq> ''Chase''
           \<and> checkSuspiciousDomain u = substitution_hit (extract_domain u) b)"
proof (cases "first_match (extract_domain u)")
  case None
  assume s: "suspicious (checkSuspiciousDomain u)"
  with None obtain b where b: "first_brand (extract_domain u) = Some b"
    and r: "checkSuspiciousDomain u = substitution_hit (extract_domain u) b"
    by (auto simp: checkSuspiciousDomain_def Let_def split: option.splits if_splits)
  from first_brand_in_brands [OF b] brands_no_chase
  have "b \<in> set brands" "b \<noteq> ''chase''" "b \<noteq> ''Chase''" by auto
  with None b r show ?thesis by blast
next
  case (Some item)
  assume s: "suspicious (checkSuspiciousDomain u)"
  have "brand item \<noteq> ''Chase''"
  proof
    assume "brand item = ''Chase''"
    from check_chase [OF Some this] s show False by simp
  qed
  with Some check_table [OF Some] show ?thesis by blast
qed

lemma chase_bank_facts:
  "str_includes (extract_domain ''https://www.chase-bank.com/login'') ''chase-bank''
   \<and> first_match (extract_domain ''https://www.chase-bank.com/login'') =
       Some \<lparr>pattern = ''chase'', item_score = 0, brand = ''Chase'', reason = ''Legitimate''\<rparr>
   \<and> suspicious (checkSuspiciousDomain ''secure-chase-bank.app1e.com'')"
  by code_simp

text \<open>
  Claim C10. For every URL, \<^verbatim>\<open>checkSuspiciousDomain\<close> never returns a suspicious result
  that attributes the Chase brand. A domain that includes \<^verbatim>\<open>chase-bank\<close> includes
  \<^verbatim>\<open>chase\<close>, so the loop over the table never returns the entry \<^verbatim>\<open>chase-bank\<close>; when the
  entry it returns has the brand Chase, that entry has score 0 and the result is not
  suspicious; the brand list of the substitution pass has no Chase. So a suspicious result
  is built either from a table entry of another brand or from a brand of that list.
\<close>

theorem chase_bank_unreachable:
  "(str_includes d ''chase-bank'' \<longrightarrow> str_includes d ''chase'')
   \<and> (first_match d = Some item \<longrightarrow> pattern item \<noteq> ''chase-bank'')
   \<and> (first_match (extract_domain u) = Some item \<and> brand item = ''Chase'' \<longrightarrow>
        item_score item = 0 \<and> checkSuspiciousDomain u = NotSuspicious)
   \<and> ''chase'' \<notin> set brands
   \<and> ''Chase'' \<notin> set brands
   \<and> (suspicious (checkSuspiciousDomain u) \<longrightarrow>
        (\<exists>item. first_match (extract_domain u) = Some item \<and> brand item \<noteq> ''Chase''
               \<and> checkSuspiciousDomain u = table_hit (extract_domain u) item)
        \<or> (\<exists>b. first_match (extract_domain u) = None \<and> first_brand (extract_domain u) = Some b
               \<and> b \<in> set brands \<and> b \<noteq> ''chase'' \<and> b \<noteq> ''Chase''
               \<and> checkSuspiciousDomain u = substitution_hit (extract_domain u) b))"
  using chase_in_chase_bank [of d] first_match_not_chase_bank [of d item]
    first_match_chase [of "extract_domain u" item] check_chase [of u item]
    brands_no_chase suspicious_source [of u]
  by blast

theorem chase_bank_unreachable_witness:
  "str_includes (extract_domain ''https://www.chase-bank.com/login'') ''chase-bank''
   \<and> str_includes (extract_domain ''https://www.chase-bank.com/login'') ''chase''
   \<and> first_match (extract_domain ''https://www.chase-bank.com/login'') =
       Some \<lparr>pattern = ''chase'', item_score = 0, brand = ''Chase'', reason = ''Legitimate''\<rparr>
   \<and> pattern \<lparr>pattern = ''chase'', item_score = 0, brand = ''Chase'', reason = ''Legitimate''\<rparr>
       \<noteq> ''chase-bank''
   \<and> checkSuspiciousDomain ''https://www.chase-bank.com/login'' = NotSuspicious
   \<and> suspicious (checkSuspiciousDomain ''secure-chase-bank.app1e.com'')
   \<and> (\<exists>item. first_match (extract_domain ''secure-chase-bank.app1e.com'') = Some item
              \<and> brand item \<noteq> ''Chase'')"
proof -
  let ?u = "''https://www.chase-bank.com/login''"
  let ?v = "''secure-chase-bank.app1e.com''"
  let ?i = "\<lparr>pattern = ''chase'', item_score = 0, brand = ''Chase'', reason = ''Legitimate''\<rparr>"
  note a = chase_bank_unreachable [where u = ?u and d = "extract_domain ?u" and item = ?i]
  note b = chase_bank_unreachable [where u = ?v]
  have f1: "str_includes (extract_domain ?u) ''chase-bank''"
    by (rule chase_bank_facts [THEN conjunct1])
  have f2: "first_match (extract_domain ?u) = Some ?i"
    by (rule chase_bank_facts [THEN conjunct2, THEN conjunct1])
  have f3: "suspicious (checkSuspiciousDomain ?v)"
    by (rule chase_bank_facts [THEN conjunct2, THEN conjunct2])
  have c: "brand ?i = ''Chase''"
    by simp
  have g1: "str_includes (extract_domain ?u) ''chase''"
    by (rule a [THEN conjunct1, THEN mp, OF f1])
  have g1': "pattern ?i \<noteq> ''chase-bank''"
    by (rule a [THEN conjunct2, THEN conjunct1, THEN mp, OF f2])
  have g2: "checkSuspiciousDomain ?u = NotSuspicious"
    using a [THEN conjunct2, THEN conjunct2, THEN conjunct1, THEN mp, OF conjI, OF f2 c]
    by (rule conjunct2)
  have d: "first_match (extract_domain ?v) \<noteq> None"
    by code_simp
  have g3: "\<exists>item. first_match (extract_domain ?v) = Some item \<and> brand item \<noteq> ''Chase''"
    using b [THEN conjunct2, THEN conjunct2, THEN conjunct2, THEN conjunct2, THEN conjunct2,
             THEN mp, OF f3] d
    by auto
  from f1 g1 f2 g1' g2 f3 g3 show ?thesis
    by (intro conjI)
qed

section \<open>Storage keys are distinct\<close>

lemma digit_of_inj: "a < 10 \<Longrightarrow> b < 10 \<Longrightarrow> digit_of a = digit_of b \<Longrightarrow> a = b"
proof -
  assume a: "a < 10" and b: "b < 10" and e: "digit_of a = digit_of b"
  from e have "(of_char (char_of (48 + a) :: char) :: nat) = of_char (char_of (48 + b) :: char)"
    by (simp add: digit_of_def)
  with a b show "a = b" by (simp add: of_char_of)
qed

lemma digit_of_is_digit: "n < 10 \<Longrightarrow> is_digit (digit_of n)"
  by (simp add: digit_of_def is_digit_def of_char_of)

lemma show_nat_digits: "c \<in> set (show_nat n) \<Longrightarrow> is_digit c"
proof (induction n arbitrary: c rule: show_nat.induct)
  case (1 n)
  show ?case
  proof (cases "n < 10")
    case True
    with "1.prems" show ?thesis
      by (subst (asm) show_nat.simps) (auto simp: digit_of_is_digit)
  next
    case False
    with "1.prems" have "c \<in> set (show_nat (n div 10)) \<or> c = digit_of (n mod 10)"
      by (subst (asm) show_nat.simps) auto
    with False "1.IH" show ?thesis
      by (auto simp: digit_of_is_digit)
  qed
qed

lemma show_nat_nonempty: "show_nat n \<noteq> []"
  by (subst show_nat.simps) simp

lemma show_nat_inj: "show_nat a = show_nat b \<Longrightarrow> a = b"
proof (induction a arbitrary: b rule: show_nat.induct)
  case (1 a)
  show ?case
  proof (cases "a < 10")
    case True
    note a10 = this
    show ?thesis
    proof (cases "b < 10")
      case True
      with a10 "1.prems" show ?thesis
        by (simp add: show_nat.simps [of a] show_nat.simps [of b] digit_of_inj)
    next
      case False
      with a10 "1.prems" have "[digit_of a] = show_nat (b div 10) @ [digit_of (b mod 10)]"
        by (simp add: show_nat.simps [of a] show_nat.simps [of b])
      then have "show_nat (b div 10) = []" by simp
      with show_nat_nonempty show ?thesis by blast
    qed
  next
    case False
    note a10 = this
    show ?thesis
    proof (cases "b < 10")
      case True
      with a10 "1.prems" have "show_nat (a div 10) @ [digit_of (a mod 10)] = [digit_of b]"
        by (simp add: show_nat.simps [of a] show_nat.simps [of b])
      then have "show_nat (a div 10) = []" by simp
      with show_nat_nonempty show ?thesis by blast
    next
      case False
      with a10 "1.prems"
      have "show_nat (a div 10) @ [digit_of (a mod 10)] = show_nat (b div 10) @ [digit_of (b mod 10)]"
        by (simp add: show_nat.simps [of a] show_nat.simps [of b])
      then have q: "show_nat (a div 10) = show_nat (b div 10)"
        and r: "digit_of (a mod 10) = digit_of (b mod 10)"
        by simp_all
      from "1.IH" [OF a10 q] have "a div 10 = b div 10" .
      moreover from r have "a mod 10 = b mod 10"
        by (rule digit_of_inj [rotated 2]) simp_all
      ultimately show ?thesis
        by (metis div_mult_mod_eq)
    qed
  qed
qed

lemma minus_not_digit: "\<not> is_digit (CHR ''-'')"
  by (simp add: is_digit_def)

lemma show_nat_no_minus: "show_nat n \<noteq> CHR ''-'' # s"
proof
  assume "show_nat n = CHR ''-'' # s"
  then have "CHR ''-'' \<in> set (show_nat n)" by simp
  from show_nat_digits [OF this] minus_not_digit show False by simp
qed

lemma show_int_inj: "show_int i = show_int j \<Longrightarrow> i = j"
proof -
  assume e: "show_int i = show_int j"
  show "i = j"
  proof (cases "i < 0")
    case True
    note i0 = this
    show ?thesis
    proof (cases "j < 0")
      case True
      with i0 e have "show_nat (nat (- i)) = show_nat (nat (- j))"
        by (simp add: show_int_def)
      from show_nat_inj [OF this] i0 True show ?thesis by simp
    next
      case False
      with i0 e have "show_nat (nat j) = CHR ''-'' # show_nat (nat (- i))"
        by (simp add: show_int_def)
      with show_nat_no_minus show ?thesis by blast
    qed
  next
    case False
    note i0 = this
    show ?thesis
    proof (cases "j < 0")
      case True
      with i0 e have "show_nat (nat i) = CHR ''-'' # show_nat (nat (- j))"
        by (simp add: show_int_def)
      with show_nat_no_minus show ?thesis by blast
    next
      case False
      with i0 e have "show_nat (nat i) = show_nat (nat j)"
        by (simp add: show_int_def)
      from show_nat_inj [OF this] i0 False show ?thesis by simp
    qed
  qed
qed

lemma show_int_chars: "c \<in> set (show_int i) \<Longrightarrow> is_digit c \<or> c = CHR ''-''"
  by (auto simp: show_int_def dest: show_nat_digits split: if_splits)

lemma tab_key_inj [simp]: "(tab_key a = tab_key b) = (a = b)"
  by (auto simp: tab_key_def dest: show_int_inj)

lemma url_key_inj [simp]: "(url_key a = url_key b) = (a = b)"
  by (simp add: url_key_def)

lemma url_key_tab_key: "(url_key u = tab_key t) = (u = show_int t)"
  by (simp add: url_key_def tab_key_def)

lemma lastScan_not_scan_key [simp]:
  "tab_key t \<noteq> ''lastScan''" "url_key u \<noteq> ''lastScan''"
  "''lastScan'' \<noteq> tab_key t" "''lastScan'' \<noteq> url_key u"
  by (simp_all add: tab_key_def url_key_def)

lemma settings_not_scan_key [simp]:
  "tab_key t \<noteq> ''settings''" "url_key u \<noteq> ''settings''"
  "''settings'' \<noteq> tab_key t" "''settings'' \<noteq> url_key u"
  by (simp_all add: tab_key_def url_key_def)

section \<open>The result store\<close>

lemma store_tab_entry:
  "storage (storeScanResult tabId u r t_set t_cb st) (tab_key tabId) = Some (ScanV r)"
  by (simp add: storeScanResult_def Let_def split: option.splits)

lemma store_url_entry:
  "storage (storeScanResult tabId u r t_set t_cb st) (url_key u) = Some (ScanV r)"
  by (simp add: storeScanResult_def Let_def split: option.splits)

lemma store_lastScan:
  "storage (storeScanResult tabId u r t_set t_cb st) ''lastScan'' =
     Some (LastScanV \<lparr>ls_tabId = tabId, ls_url = u, ls_result = r, ls_timestamp = t_set\<rparr>)"
  by (simp add: storeScanResult_def Let_def split: option.splits)

lemma store_other_key:
  "k \<noteq> tab_key tabId \<Longrightarrow> k \<noteq> url_key u \<Longrightarrow> k \<noteq> ''lastScan'' \<Longrightarrow> k \<noteq> ''settings'' \<Longrightarrow>
   storage (storeScanResult tabId u r t_set t_cb st) k = storage st k"
  by (simp add: storeScanResult_def Let_def split: option.splits)

lemma store_history_Some:
  "score r = Some s \<Longrightarrow>
   scanHistory (settings (storeScanResult tabId u r t_set t_cb st)) =
     push_history \<lparr>h_url = u, h_score = s, h_risk_level = risk_level r, h_timestamp = t_cb\<rparr>
       (scanHistory (settings st))"
  by (simp add: storeScanResult_def Let_def)

lemma store_history_None:
  "score r = None \<Longrightarrow>
   scanHistory (settings (storeScanResult tabId u r t_set t_cb st)) = scanHistory (settings st)"
  by (simp add: storeScanResult_def Let_def)

lemma store_flags:
  "showWarnings (settings (storeScanResult tabId u r t_set t_cb st)) = showWarnings (settings st)
   \<and> autoScan (settings (storeScanResult tabId u r t_set t_cb st)) = autoScan (settings st)"
  by (simp add: storeScanResult_def Let_def split: option.splits)

lemma store_effects:
  "icons (storeScanResult tabId u r t_set t_cb st) = icons st
   \<and> banners (storeScanResult tabId u r t_set t_cb st) = banners st
   \<and> messages (storeScanResult tabId u r t_set t_cb st) = messages st"
  by (simp add: storeScanResult_def Let_def split: option.splits)

lemma push_history_short: "length h < 20 \<Longrightarrow> push_history e h = e # h"
  by (simp add: push_history_def)

lemma push_history_full: "length h = 20 \<Longrightarrow> push_history e h = e # butlast h"
  by (cases h) (simp_all add: push_history_def)

lemma push_history_take: "length h \<le> 20 \<Longrightarrow> push_history e h = take 20 (e # h)"
proof (cases "length h < 20")
  case True
  then show ?thesis by (simp add: push_history_short)
next
  case False
  assume "length h \<le> 20"
  with False have l: "length h = 20" by simp
  then have "butlast h = take 19 h" by (simp add: butlast_conv_take)
  with l show ?thesis by (simp add: push_history_full)
qed

lemma take_append_take: "take n (xs @ take n ys) = take n (xs @ ys)"
  by (simp add: min_def)

lemma apply_write_history:
  "length (scanHistory (settings st)) \<le> 20 \<Longrightarrow>
   scanHistory (settings (apply_write w st)) =
     take 20 (rev (history_entries [w]) @ scanHistory (settings st))"
  by (cases "score (w_result w)")
     (simp_all add: apply_write_def history_entries_def entry_of_def store_history_None
        store_history_Some push_history_take)

lemma run_writes_history:
  "length (scanHistory (settings st)) \<le> 20 \<Longrightarrow>
   scanHistory (settings (run_writes st ws)) =
     take 20 (rev (history_entries ws) @ scanHistory (settings st))"
proof (induction ws arbitrary: st)
  case Nil
  then show ?case by (simp add: history_entries_def)
next
  case (Cons w ws)
  let ?h1 = "scanHistory (settings (apply_write w st))"
  from Cons.prems have h1: "?h1 = take 20 (rev (history_entries [w]) @ scanHistory (settings st))"
    by (rule apply_write_history)
  then have "length ?h1 \<le> 20" by simp
  from Cons.IH [OF this]
  have "scanHistory (settings (run_writes st (w # ws))) = take 20 (rev (history_entries ws) @ ?h1)"
    by simp
  also have "\<dots> = take 20 (rev (history_entries ws) @ rev (history_entries [w]) @ scanHistory (settings st))"
    by (simp only: h1 take_append_take)
  also have "\<dots> = take 20 (rev (history_entries (w # ws)) @ scanHistory (settings st))"
    by (simp add: history_entries_def map_filter_def)
  finally show ?case .
qed

lemma history_entries_all:
  "list_all has_score ws \<Longrightarrow> length (history_entries ws) = length ws"
  by (induction ws)
     (auto simp: history_entries_def map_filter_def has_score_def entry_of_def split: option.splits)

section \<open>The bounded history\<close>

lemma sample_writes_facts:
  "list_all has_score sample_writes \<and> length sample_writes = 21"
  by code_simp

lemma sample_history_entries:
  "map h_score (take 20 (rev (history_entries sample_writes))) =
     [21, 20, 19, 18, 17, 16, 15, 14, 13, 12, 11, 10, 9, 8, 7, 6, 5, 4, 3, 2]"
  by code_simp

text \<open>
  Claim C5. Starting from an empty history, after any sequence of writes the history is
  the first 20 of the written entries taken most recent first, where a write makes an
  entry exactly when its result has a score. So after more than 20 writes that all have
  a score, its length is exactly 20 and it holds the 20 most recent entries, most recent
  first. One write with a score puts its entry in front, and drops the last entry when
  there were 20 already; a write without a score leaves the history as it was.
\<close>

theorem history_bound:
  "(scanHistory (settings st) = [] \<longrightarrow>
      scanHistory (settings (run_writes st ws)) = take 20 (rev (history_entries ws)))
   \<and> (scanHistory (settings st) = [] \<and> list_all has_score ws \<and> 20 < length ws \<longrightarrow>
      length (history_entries ws) = length ws
      \<and> length (scanHistory (settings (run_writes st ws))) = 20)
   \<and> (score r = Some s \<longrightarrow>
      scanHistory (settings (storeScanResult tabId u r t_set t_cb st)) =
        push_history \<lparr>h_url = u, h_score = s, h_risk_level = risk_level r, h_timestamp = t_cb\<rparr>
          (scanHistory (settings st)))
   \<and> (length h < 20 \<longrightarrow> push_history e h = e # h)
   \<and> (length h = 20 \<longrightarrow> push_history e h = e # butlast h)
   \<and> (score r = None \<longrightarrow>
      scanHistory (settings (storeScanResult tabId u r t_set t_cb st)) = scanHistory (settings st))"
proof -
  have a: "scanHistory (settings st) = [] \<longrightarrow>
      scanHistory (settings (run_writes st ws)) = take 20 (rev (history_entries ws))"
    using run_writes_history [of st ws] by simp
  have b: "scanHistory (settings st) = [] \<and> list_all has_score ws \<and> 20 < length ws \<longrightarrow>
      length (history_entries ws) = length ws
      \<and> length (scanHistory (settings (run_writes st ws))) = 20"
    using a history_entries_all [of ws] by auto
  from a b store_history_Some [of r s tabId u t_set t_cb st] push_history_short [of h e]
    push_history_full [of h e] store_history_None [of r tabId u t_set t_cb st]
  show ?thesis by blast
qed

theorem history_bound_witness:
  "scanHistory (settings initial_state) = []
   \<and> list_all has_score sample_writes
   \<and> 20 < length sample_writes
   \<and> length (scanHistory (settings (run_writes initial_state sample_writes))) = 20
   \<and> map h_score (scanHistory (settings (run_writes initial_state sample_writes))) =
       [21, 20, 19, 18, 17, 16, 15, 14, 13, 12, 11, 10, 9, 8, 7, 6, 5, 4, 3, 2]
   \<and> score (sample_result 90) = Some 90
   \<and> scanHistory (settings
        (storeScanResult 1 ''https://example.com/'' (sample_result 90) 1000 1001 initial_state)) =
       push_history \<lparr>h_url = ''https://example.com/'', h_score = 90,
                      h_risk_level = risk_level (sample_result 90), h_timestamp = 1001\<rparr>
         (scanHistory (settings initial_state))
   \<and> length (scanHistory (settings initial_state)) < 20
   \<and> push_history \<lparr>h_url = ''https://example.com/'', h_score = 90,
                      h_risk_level = risk_level (sample_result 90), h_timestamp = 1001\<rparr>
         (scanHistory (settings initial_state)) =
       \<lparr>h_url = ''https://example.com/'', h_score = 90,
          h_risk_level = risk_level (sample_result 90), h_timestamp = 1001\<rparr>
       # scanHistory (settings initial_state)
   \<and> length (scanHistory (settings (run_writes initial_state sample_writes))) = 20
   \<and> push_history \<lparr>h_url = ''https://example.com/'', h_score = 90,
                      h_risk_level = risk_level (sample_result 90), h_timestamp = 1001\<rparr>
         (scanHistory (settings (run_writes initial_state sample_writes))) =
       \<lparr>h_url = ''https://example.com/'', h_score = 90,
          h_risk_level = risk_level (sample_result 90), h_timestamp = 1001\<rparr>
       # butlast (scanHistory (settings (run_writes initial_state sample_writes)))
   \<and> score unscored_result = None
   \<and> scanHistory (settings
        (storeScanResult 1 ''https://example.com/'' unscored_result 1000 1001 initial_state)) =
       scanHistory (settings initial_state)"
proof -
  let ?u = "''https://example.com/''"
  let ?e = "\<lparr>h_url = ?u, h_score = 90, h_risk_level = risk_level (sample_result 90),
             h_timestamp = 1001\<rparr>"
  let ?full = "scanHistory (settings (run_writes initial_state sample_writes))"
  have e: "scanHistory (settings initial_state) = []"
    by (simp add: initial_state_def default_settings_def)
  have w: "list_all has_score sample_writes" and l: "20 < length sample_writes"
    using sample_writes_facts by simp_all
  note t = history_bound [where st = initial_state and ws = sample_writes]
  have h: "?full = take 20 (rev (history_entries sample_writes))"
    by (rule t [THEN conjunct1, THEN mp, OF e])
  have n: "length ?full = 20"
    by (rule t [THEN conjunct2, THEN conjunct1, THEN mp, OF conjI [OF e conjI [OF w l]],
                THEN conjunct2])
  have m: "map h_score ?full =
       [21, 20, 19, 18, 17, 16, 15, 14, 13, 12, 11, 10, 9, 8, 7, 6, 5, 4, 3, 2]"
    by (simp only: h sample_history_entries)
  have a: "score (sample_result 90) = Some 90"
    by (simp add: sample_result_def)
  have c: "score unscored_result = None"
    by (simp add: unscored_result_def)
  have b: "length (scanHistory (settings initial_state)) < 20"
    by (simp add: e)
  note s90 = history_bound [where st = initial_state and tabId = 1 and u = ?u
      and ?t_set.0 = 1000 and ?t_cb.0 = 1001 and r = "sample_result 90" and s = 90
      and h = "scanHistory (settings initial_state)" and e = ?e,
      THEN conjunct2, THEN conjunct2]
  note s0 = history_bound [where st = initial_state and tabId = 1 and u = ?u
      and ?t_set.0 = 1000 and ?t_cb.0 = 1001 and r = unscored_result
      and h = ?full and e = ?e,
      THEN conjunct2, THEN conjunct2]
  have r1: "scanHistory (settings (storeScanResult 1 ?u (sample_result 90) 1000 1001 initial_state)) =
       push_history ?e (scanHistory (settings initial_state))"
    by (rule s90 [THEN conjunct1, THEN mp, OF a])
  have r2: "push_history ?e (scanHistory (settings initial_state)) =
       ?e # scanHistory (settings initial_state)"
    by (rule s90 [THEN conjunct2, THEN conjunct1, THEN mp, OF b])
  have r3: "push_history ?e ?full = ?e # butlast ?full"
    by (rule s0 [THEN conjunct2, THEN conjunct2, THEN conjunct1, THEN mp, OF n])
  have r4: "scanHistory (settings (storeScanResult 1 ?u unscored_result 1000 1001 initial_state)) =
       scanHistory (settings initial_state)"
    by (rule s0 [THEN conjunct2, THEN conjunct2, THEN conjunct2, THEN mp, OF c])
  from e w l n m a r1 b r2 r3 c r4 show ?thesis
    by (intro conjI)
qed

section \<open>Invalidation\<close>

lemma clear_removed: "storage (clearTabCache tabId st) (tab_key tabId) = None"
  by (simp add: clearTabCache_def)

lemma clear_other_key:
  "k \<noteq> tab_key tabId \<Longrightarrow> storage (clearTabCache tabId st) k = storage st k"
  by (simp add: clearTabCache_def)

lemma clear_rest:
  "settings (clearTabCache tabId st) = settings st
   \<and> icons (clearTabCache tabId st) = icons st
   \<and> banners (clearTabCache tabId st) = banners st
   \<and> messages (clearTabCache tabId st) = messages st"
  by (simp add: clearTabCache_def)

lemma url_not_tab_key:
  "c \<in> set u \<Longrightarrow> \<not> is_digit c \<Longrightarrow> c \<noteq> CHR ''-'' \<Longrightarrow> url_key u \<noteq> tab_key tabId"
  using show_int_chars [of c tabId] by (auto simp: url_key_tab_key)

text \<open>
  Claim C9. \<^verbatim>\<open>clearTabCache\<close> removes only the entry under the key of the tab: every other
  key of the storage keeps its value. In particular the last-scan pointer, the stored and
  the in-memory settings with the scan history, the entry of every other tab, and the
  mirror entry of every URL keep theirs; the URL has to differ from the decimal string of
  the tab id, whose mirror key is the tab's own key, and every URL that has a character
  other than a digit or a minus sign does.
\<close>

theorem invalidate_frame:
  "storage (clearTabCache tabId st) (tab_key tabId) = None
   \<and> (k \<noteq> tab_key tabId \<longrightarrow> storage (clearTabCache tabId st) k = storage st k)
   \<and> storage (clearTabCache tabId st) ''lastScan'' = storage st ''lastScan''
   \<and> storage (clearTabCache tabId st) ''settings'' = storage st ''settings''
   \<and> settings (clearTabCache tabId st) = settings st
   \<and> (t \<noteq> tabId \<longrightarrow> storage (clearTabCache tabId st) (tab_key t) = storage st (tab_key t))
   \<and> (u \<noteq> show_int tabId \<longrightarrow>
        storage (clearTabCache tabId st) (url_key u) = storage st (url_key u))
   \<and> (c \<in> set u \<and> \<not> is_digit c \<and> c \<noteq> CHR ''-'' \<longrightarrow>
        storage (clearTabCache tabId st) (url_key u) = storage st (url_key u))"
proof -
  have a: "storage (clearTabCache tabId st) ''lastScan'' = storage st ''lastScan''"
    by (simp add: clear_other_key)
  have b: "storage (clearTabCache tabId st) ''settings'' = storage st ''settings''"
    by (simp add: clear_other_key)
  have c: "t \<noteq> tabId \<longrightarrow> storage (clearTabCache tabId st) (tab_key t) = storage st (tab_key t)"
    by (simp add: clear_other_key)
  have d: "u \<noteq> show_int tabId \<longrightarrow>
        storage (clearTabCache tabId st) (url_key u) = storage st (url_key u)"
    by (simp add: clear_other_key url_key_tab_key)
  have e: "c \<in> set u \<and> \<not> is_digit c \<and> c \<noteq> CHR ''-'' \<longrightarrow>
        storage (clearTabCache tabId st) (url_key u) = storage st (url_key u)"
    using url_not_tab_key [of c u tabId] by (auto simp: clear_other_key)
  have f: "k \<noteq> tab_key tabId \<longrightarrow> storage (clearTabCache tabId st) k = storage st k"
    by (simp add: clear_other_key)
  from clear_removed [of tabId st] f a b clear_rest [of tabId st] c d e show ?thesis
    by (intro conjI) simp_all
qed

theorem invalidate_frame_witness:
  "(2::int) \<noteq> 1
   \<and> CHR '':'' \<in> set ''https://example.com/''
   \<and> \<not> is_digit (CHR '':'')
   \<and> ''https://example.com/'' \<noteq> show_int 1
   \<and> ''lastScan'' \<noteq> tab_key 1
   \<and> storage (clearTabCache 1 (run_writes initial_state sample_writes)) (tab_key 1) = None
   \<and> storage (clearTabCache 2 (run_writes initial_state sample_writes)) (tab_key 1) =
       Some (ScanV (sample_result 21))
   \<and> storage (clearTabCache 1 (run_writes initial_state sample_writes))
       (url_key ''https://example.com/'') = Some (ScanV (sample_result 21))
   \<and> storage (clearTabCache 1 (run_writes initial_state sample_writes)) ''lastScan'' =
       storage (run_writes initial_state sample_writes) ''lastScan''"
proof -
  let ?st = "run_writes initial_state sample_writes"
  let ?u = "''https://example.com/''"
  have n: "(2::int) \<noteq> 1" by simp
  have m: "(1::int) \<noteq> 2" by simp
  have c: "CHR '':'' \<in> set ?u" by simp
  have d: "\<not> is_digit (CHR '':'')" by (simp add: is_digit_def)
  have d': "CHR '':'' \<noteq> CHR ''-''" by simp
  have x: "?u \<noteq> show_int 1"
    using url_not_tab_key [OF c d d', of 1] by (simp add: url_key_tab_key)
  have y: "''lastScan'' \<noteq> tab_key 1" by simp
  have s1: "storage ?st (tab_key 1) = Some (ScanV (sample_result 21))"
    by code_simp
  have s2: "storage ?st (url_key ?u) = Some (ScanV (sample_result 21))"
    by code_simp
  note t1 = invalidate_frame [where st = ?st and tabId = 1 and u = ?u and c = "CHR '':''"
      and k = "''lastScan''"]
  note t2 = invalidate_frame [where st = ?st and tabId = 2 and t = 1]
  have r1: "storage (clearTabCache 1 ?st) (tab_key 1) = None"
    by (rule t1 [THEN conjunct1])
  have r2: "storage (clearTabCache 2 ?st) (tab_key 1) = storage ?st (tab_key 1)"
    by (rule t2 [THEN conjunct2, THEN conjunct2, THEN conjunct2, THEN conjunct2,
                 THEN conjunct2, THEN conjunct1, THEN mp, OF m])
  have r3: "storage (clearTabCache 1 ?st) (url_key ?u) = storage ?st (url_key ?u)"
    by (rule t1 [THEN conjunct2, THEN conjunct2, THEN conjunct2, THEN conjunct2,
                 THEN conjunct2, THEN conjunct2, THEN conjunct2, THEN mp,
                 OF conjI [OF c conjI [OF d d']]])
  have r3': "storage (clearTabCache 1 ?st) (url_key ?u) = storage ?st (url_key ?u)"
    by (rule t1 [THEN conjunct2, THEN conjunct2, THEN conjunct2, THEN conjunct2,
                 THEN conjunct2, THEN conjunct2, THEN conjunct1, THEN mp, OF x])
  have r4: "storage (clearTabCache 1 ?st) ''lastScan'' = storage ?st ''lastScan''"
    by (rule t1 [THEN conjunct2, THEN conjunct1, THEN mp, OF y])
  from n c d x y r1 r2 [unfolded s1] r3 [unfolded s2] r4 show ?thesis
    by (intro conjI)
qed

section \<open>Writing the same result twice\<close>

lemma store_twice_history_short:
  "score r = Some s \<Longrightarrow> length (scanHistory (settings st)) < 19 \<Longrightarrow>
   scanHistory (settings (storeScanResult tabId u r t2 t2' (storeScanResult tabId u r t1 t1' st))) =
     \<lparr>h_url = u, h_score = s, h_risk_level = risk_level r, h_timestamp = t2'\<rparr>
     # \<lparr>h_url = u, h_score = s, h_risk_level = risk_level r, h_timestamp = t1'\<rparr>
     # scanHistory (settings st)"
  by (simp add: store_history_Some push_history_short)

text \<open>
  Claim C8, as the code has it. Two calls of \<^verbatim>\<open>storeScanResult\<close> in succession with the
  same tab, URL and result: the second leaves the tab's entry and the URL's mirror entry
  as the first set them, and leaves the tab, URL and result of the last-scan pointer as
  they were, while the pointer's timestamp is the clock of the second call. When the
  result has a score the second call puts one more entry in front of the history (and
  drops the last one when there were 20), so two identical writes make two entries; when
  the result has no score the second call leaves the history as it was.
\<close>

theorem write_twice:
  "storage (storeScanResult tabId u r t2 t2' (storeScanResult tabId u r t1 t1' st)) (tab_key tabId)
     = storage (storeScanResult tabId u r t1 t1' st) (tab_key tabId)
   \<and> storage (storeScanResult tabId u r t1 t1' st) (tab_key tabId) = Some (ScanV r)
   \<and> storage (storeScanResult tabId u r t2 t2' (storeScanResult tabId u r t1 t1' st)) (url_key u)
     = storage (storeScanResult tabId u r t1 t1' st) (url_key u)
   \<and> storage (storeScanResult tabId u r t1 t1' st) (url_key u) = Some (ScanV r)
   \<and> storage (storeScanResult tabId u r t1 t1' st) ''lastScan'' =
       Some (LastScanV \<lparr>ls_tabId = tabId, ls_url = u, ls_result = r, ls_timestamp = t1\<rparr>)
   \<and> storage (storeScanResult tabId u r t2 t2' (storeScanResult tabId u r t1 t1' st)) ''lastScan'' =
       Some (LastScanV \<lparr>ls_tabId = tabId, ls_url = u, ls_result = r, ls_timestamp = t2\<rparr>)
   \<and> (score r = Some s \<longrightarrow>
       scanHistory (settings (storeScanResult tabId u r t2 t2' (storeScanResult tabId u r t1 t1' st))) =
         push_history \<lparr>h_url = u, h_score = s, h_risk_level = risk_level r, h_timestamp = t2'\<rparr>
           (scanHistory (settings (storeScanResult tabId u r t1 t1' st))))
   \<and> (score r = Some s \<and> length (scanHistory (settings st)) < 19 \<longrightarrow>
       scanHistory (settings (storeScanResult tabId u r t2 t2' (storeScanResult tabId u r t1 t1' st))) =
         \<lparr>h_url = u, h_score = s, h_risk_level = risk_level r, h_timestamp = t2'\<rparr>
         # \<lparr>h_url = u, h_score = s, h_risk_level = risk_level r, h_timestamp = t1'\<rparr>
         # scanHistory (settings st))
   \<and> (score r = None \<longrightarrow>
       scanHistory (settings (storeScanResult tabId u r t2 t2' (storeScanResult tabId u r t1 t1' st))) =
         scanHistory (settings (storeScanResult tabId u r t1 t1' st)))"
proof -
  have h1: "score r = Some s \<longrightarrow>
       scanHistory (settings (storeScanResult tabId u r t2 t2' (storeScanResult tabId u r t1 t1' st))) =
         push_history \<lparr>h_url = u, h_score = s, h_risk_level = risk_level r, h_timestamp = t2'\<rparr>
           (scanHistory (settings (storeScanResult tabId u r t1 t1' st)))"
    by (simp add: store_history_Some)
  have h2: "score r = Some s \<and> length (scanHistory (settings st)) < 19 \<longrightarrow>
       scanHistory (settings (storeScanResult tabId u r t2 t2' (storeScanResult tabId u r t1 t1' st))) =
         \<lparr>h_url = u, h_score = s, h_risk_level = risk_level r, h_timestamp = t2'\<rparr>
         # \<lparr>h_url = u, h_score = s, h_risk_level = risk_level r, h_timestamp = t1'\<rparr>
         # scanHistory (settings st)"
    using store_twice_history_short [of r s st tabId u t2 t2' t1 t1'] by blast
  have h3: "score r = None \<longrightarrow>
       scanHistory (settings (storeScanResult tabId u r t2 t2' (storeScanResult tabId u r t1 t1' st))) =
         scanHistory (settings (storeScanResult tabId u r t1 t1' st))"
    by (simp add: store_history_None)
  show ?thesis
    by (intro conjI h1 h2 h3) (simp_all only: store_tab_entry store_url_entry store_lastScan)
qed

theorem write_twice_witness:
  "score (sample_result 90) = Some 90
   \<and> scanHistory (settings
        (storeScanResult 1 ''https://example.com/'' (sample_result 90) 2000 2001
          (storeScanResult 1 ''https://example.com/'' (sample_result 90) 1000 1001 initial_state))) =
       push_history \<lparr>h_url = ''https://example.com/'', h_score = 90,
                      h_risk_level = risk_level (sample_result 90), h_timestamp = 2001\<rparr>
         (scanHistory (settings
            (storeScanResult 1 ''https://example.com/'' (sample_result 90) 1000 1001 initial_state)))
   \<and> length (scanHistory (settings initial_state)) < 19
   \<and> scanHistory (settings
        (storeScanResult 1 ''https://example.com/'' (sample_result 90) 2000 2001
          (storeScanResult 1 ''https://example.com/'' (sample_result 90) 1000 1001 initial_state))) =
       [\<lparr>h_url = ''https://example.com/'', h_score = 90,
          h_risk_level = risk_level (sample_result 90), h_timestamp = 2001\<rparr>,
        \<lparr>h_url = ''https://example.com/'', h_score = 90,
          h_risk_level = risk_level (sample_result 90), h_timestamp = 1001\<rparr>]
   \<and> score unscored_result = None
   \<and> scanHistory (settings
        (storeScanResult 1 ''https://example.com/'' unscored_result 2000 2001
          (storeScanResult 1 ''https://example.com/'' unscored_result 1000 1001 initial_state))) =
       scanHistory (settings
          (storeScanResult 1 ''https://example.com/'' unscored_result 1000 1001 initial_state))"
proof -
  have a: "score (sample_result 90) = Some 90"
    by (simp add: sample_result_def)
  have e: "scanHistory (settings initial_state) = []"
    by (simp add: initial_state_def default_settings_def)
  then have b: "length (scanHistory (settings initial_state)) < 19"
    by simp
  have c: "score unscored_result = None"
    by (simp add: unscored_result_def)
  note t = write_twice [where st = initial_state and tabId = 1 and u = "''https://example.com/''"
      and ?t1.0 = 1000 and t1' = 1001 and ?t2.0 = 2000 and t2' = 2001]
  note t90 = t [where r = "sample_result 90" and s = 90]
  note t0 = t [where r = unscored_result]
  have r0: "scanHistory (settings
        (storeScanResult 1 ''https://example.com/'' (sample_result 90) 2000 2001
          (storeScanResult 1 ''https://example.com/'' (sample_result 90) 1000 1001 initial_state))) =
       push_history \<lparr>h_url = ''https://example.com/'', h_score = 90,
                      h_risk_level = risk_level (sample_result 90), h_timestamp = 2001\<rparr>
         (scanHistory (settings
            (storeScanResult 1 ''https://example.com/'' (sample_result 90) 1000 1001 initial_state)))"
    by (rule t90 [THEN conjunct2, THEN conjunct2, THEN conjunct2, THEN conjunct2, THEN conjunct2,
               THEN conjunct2, THEN conjunct1, THEN mp, OF a])
  have r1: "scanHistory (settings
        (storeScanResult 1 ''https://example.com/'' (sample_result 90) 2000 2001
          (storeScanResult 1 ''https://example.com/'' (sample_result 90) 1000 1001 initial_state))) =
       [\<lparr>h_url = ''https://example.com/'', h_score = 90,
          h_risk_level = risk_level (sample_result 90), h_timestamp = 2001\<rparr>,
        \<lparr>h_url = ''https://example.com/'', h_score = 90,
          h_risk_level = risk_level (sample_result 90), h_timestamp = 1001\<rparr>]"
    using t90 [THEN conjunct2, THEN conjunct2, THEN conjunct2, THEN conjunct2, THEN conjunct2,
               THEN conjunct2, THEN conjunct2, THEN conjunct1, THEN mp, OF conjI [OF a b]]
    by (simp only: e)
  have r2: "scanHistory (settings
        (storeScanResult 1 ''https://example.com/'' unscored_result 2000 2001
          (storeScanResult 1 ''https://example.com/'' unscored_result 1000 1001 initial_state))) =
       scanHistory (settings
          (storeScanResult 1 ''https://example.com/'' unscored_result 1000 1001 initial_state))"
    by (rule t0 [THEN conjunct2, THEN conjunct2, THEN conjunct2, THEN conjunct2, THEN conjunct2,
               THEN conjunct2, THEN conjunct2, THEN conjunct2, THEN mp, OF c])
  from a r0 b r1 c r2 show ?thesis
    by (intro conjI)
qed

text \<open>
  The claim as it is written fails: with the clock at 1000 ms for the first call and at
  2000 ms for the second, the last-scan pointer after the second call is not the one after
  the first; and for a result without a score the second call adds no history entry.
\<close>

theorem write_twice_counterexample:
  "storage (storeScanResult 1 ''https://example.com/'' (sample_result 90) 2000 2001
             (storeScanResult 1 ''https://example.com/'' (sample_result 90) 1000 1001 initial_state))
       ''lastScan''
     \<noteq> storage (storeScanResult 1 ''https://example.com/'' (sample_result 90) 1000 1001 initial_state)
         ''lastScan''
   \<and> scanHistory (settings
        (storeScanResult 1 ''https://example.com/'' unscored_result 2000 2001
          (storeScanResult 1 ''https://example.com/'' unscored_result 1000 1001 initial_state))) =
       scanHistory (settings
          (storeScanResult 1 ''https://example.com/'' unscored_result 1000 1001 initial_state))"
  by (simp add: store_lastScan store_history_None unscored_result_def)

section \<open>One scan\<close>

lemma scan_started_storage:
  "storage (scan_started tabId st) = (storage st)(tab_key tabId := None)"
  by (simp add: scan_started_def safeSetIcon_def clearTabCache_def)

lemma scan_started_icon: "icons (scan_started tabId st) tabId = Some safe"
  by (simp add: scan_started_def safeSetIcon_def)

lemma scan_started_rest:
  "settings (scan_started tabId st) = settings st
   \<and> banners (scan_started tabId st) = banners st
   \<and> messages (scan_started tabId st) = messages st"
  by (simp add: scan_started_def safeSetIcon_def clearTabCache_def)

lemma safe_icon_again: "safeSetIcon tabId safe (scan_started tabId st) = scan_started tabId st"
  by (simp add: scan_started_def safeSetIcon_def)

lemma not_fresh_started: "\<not> fresh (scan_started tabId st) tabId now"
  by (simp add: fresh_def scan_started_storage)

lemma settle_storage:
  "storage (settle tabId u r t_set t_cb st) = storage (storeScanResult tabId u r t_set t_cb st)"
  by (simp add: settle_def Let_def updateIconForScore_def safeSetIcon_def showWarningSafely_def)

lemma settle_settings:
  "settings (settle tabId u r t_set t_cb st) = settings (storeScanResult tabId u r t_set t_cb st)"
  by (simp add: settle_def Let_def updateIconForScore_def safeSetIcon_def showWarningSafely_def)

lemma settle_icon:
  "icons (settle tabId u r t_set t_cb st) tabId = Some (iconPath_for (score r))"
  by (simp add: settle_def Let_def updateIconForScore_def safeSetIcon_def showWarningSafely_def)

lemma settle_banners:
  "banners (settle tabId u r t_set t_cb st) =
     (if js_ge (score r) 70 \<and> showWarnings (settings st)
      then (tabId, score r) # banners st else banners st)"
  using store_flags [of tabId u r t_set t_cb st] store_effects [of tabId u r t_set t_cb st]
  by (simp add: settle_def Let_def updateIconForScore_def safeSetIcon_def showWarningSafely_def)

lemma settle_messages:
  "messages (settle tabId u r t_set t_cb st) = (tabId, r) # messages st"
  using store_effects [of tabId u r t_set t_cb st]
  by (simp add: settle_def Let_def updateIconForScore_def safeSetIcon_def showWarningSafely_def)

lemma try_Rejected:
  "scanUrl_try u tabId Rejected t_set t_cb st = (scan_started tabId st, Inl ApiNotReachable)"
  by (simp add: scanUrl_try_def)

lemma try_not_ok_clean:
  "\<not> ok resp \<Longrightarrow> checkSuspiciousDomain u = NotSuspicious \<Longrightarrow>
   scanUrl_try u tabId (Resolved resp) t_set t_cb st =
     (scan_started tabId st, Inl (ApiError (status resp)))"
  by (simp add: scanUrl_try_def)

lemma try_not_ok_suspicious:
  "\<not> ok resp \<Longrightarrow> checkSuspiciousDomain u = Suspicious s rl f \<Longrightarrow>
   scanUrl_try u tabId (Resolved resp) t_set t_cb st =
     (settle tabId u \<lparr>score = Some s, risk_level = rl, findings = f\<rparr> t_set t_cb
        (scan_started tabId st),
      Inr \<lparr>score = Some s, risk_level = rl, findings = f\<rparr>)"
  by (simp add: scanUrl_try_def Let_def)

lemma try_ok_no_json:
  "ok resp \<Longrightarrow> body resp = None \<Longrightarrow>
   scanUrl_try u tabId (Resolved resp) t_set t_cb st = (scan_started tabId st, Inl JsonError)"
  by (simp add: scanUrl_try_def)

lemma try_ok_json:
  "ok resp \<Longrightarrow> body resp = Some r \<Longrightarrow>
   scanUrl_try u tabId (Resolved resp) t_set t_cb st =
     (settle tabId u r t_set t_cb (scan_started tabId st), Inr r)"
  by (simp add: scanUrl_try_def)

lemma try_failed_iff:
  "(snd (scanUrl_try u tabId outcome t_set t_cb st) = Inl e) =
     (outcome = Rejected \<and> e = ApiNotReachable
      \<or> (\<exists>resp. outcome = Resolved resp \<and> \<not> ok resp
                 \<and> checkSuspiciousDomain u = NotSuspicious \<and> e = ApiError (status resp))
      \<or> (\<exists>resp. outcome = Resolved resp \<and> ok resp \<and> body resp = None \<and> e = JsonError))"
proof (cases outcome)
  case Rejected
  then show ?thesis by (auto simp: try_Rejected)
next
  case (Resolved resp)
  show ?thesis
  proof (cases "ok resp")
    case True
    with Resolved show ?thesis
      by (cases "body resp") (auto simp: try_ok_no_json try_ok_json)
  next
    case False
    with Resolved show ?thesis
      by (cases "checkSuspiciousDomain u") (auto simp: try_not_ok_clean try_not_ok_suspicious)
  qed
qed

lemma try_failed_state:
  "snd (scanUrl_try u tabId outcome t_set t_cb st) = Inl e \<Longrightarrow>
   fst (scanUrl_try u tabId outcome t_set t_cb st) = scan_started tabId st"
  by (auto simp: try_failed_iff try_Rejected try_not_ok_clean try_ok_no_json)

lemma try_settled_state:
  "snd (scanUrl_try u tabId outcome t_set t_cb st) = Inr r \<Longrightarrow>
   fst (scanUrl_try u tabId outcome t_set t_cb st) =
     settle tabId u r t_set t_cb (scan_started tabId st)"
  by (auto simp: scanUrl_try_def Let_def split: fetch_outcome.splits if_splits
        domain_check.splits option.splits)

lemma scanUrl_failed:
  "snd (scanUrl_try u tabId outcome t_set t_cb st) = Inl e \<Longrightarrow>
   scanUrl u tabId outcome t_set t_cb st = scan_started tabId st"
proof -
  assume f: "snd (scanUrl_try u tabId outcome t_set t_cb st) = Inl e"
  from try_failed_state [OF f] f
  have "scanUrl_try u tabId outcome t_set t_cb st = (scan_started tabId st, Inl e)"
    by (metis prod.collapse)
  then show ?thesis by (simp add: scanUrl_def safe_icon_again)
qed

lemma scanUrl_settled:
  "snd (scanUrl_try u tabId outcome t_set t_cb st) = Inr r \<Longrightarrow>
   scanUrl u tabId outcome t_set t_cb st = settle tabId u r t_set t_cb (scan_started tabId st)"
proof -
  assume f: "snd (scanUrl_try u tabId outcome t_set t_cb st) = Inr r"
  from try_settled_state [OF f] f
  have "scanUrl_try u tabId outcome t_set t_cb st =
          (settle tabId u r t_set t_cb (scan_started tabId st), Inr r)"
    by (metis prod.collapse)
  then show ?thesis by (simp add: scanUrl_def)
qed

section \<open>A response that is not ok\<close>

lemma fallback_suspicious:
  assumes "\<not> ok resp" and "checkSuspiciousDomain u = Suspicious s rl f"
  shows "snd (scanUrl_try u tabId (Resolved resp) t_set t_cb st) =
           Inr \<lparr>score = Some s, risk_level = rl, findings = f\<rparr>"
    and "scanUrl u tabId (Resolved resp) t_set t_cb st =
           settle tabId u \<lparr>score = Some s, risk_level = rl, findings = f\<rparr> t_set t_cb
             (scan_started tabId st)"
proof -
  from try_not_ok_suspicious [OF assms]
  show a: "snd (scanUrl_try u tabId (Resolved resp) t_set t_cb st) =
         Inr \<lparr>score = Some s, risk_level = rl, findings = f\<rparr>"
    by simp
  from scanUrl_settled [OF a]
  show "scanUrl u tabId (Resolved resp) t_set t_cb st =
           settle tabId u \<lparr>score = Some s, risk_level = rl, findings = f\<rparr> t_set t_cb
             (scan_started tabId st)" .
qed

lemma fallback_clean:
  assumes "\<not> ok resp" and "checkSuspiciousDomain u = NotSuspicious"
  shows "snd (scanUrl_try u tabId (Resolved resp) t_set t_cb st) = Inl (ApiError (status resp))"
    and "scanUrl u tabId (Resolved resp) t_set t_cb st = scan_started tabId st"
proof -
  from try_not_ok_clean [OF assms]
  show a: "snd (scanUrl_try u tabId (Resolved resp) t_set t_cb st) = Inl (ApiError (status resp))"
    by simp
  from scanUrl_failed [OF a]
  show "scanUrl u tabId (Resolved resp) t_set t_cb st = scan_started tabId st" .
qed

text \<open>
  Claim C2. When the service answers with a status outside 200 to 299, \<^verbatim>\<open>scanUrl\<close> asks the
  heuristic. If the heuristic finds the URL suspicious, the scan settles the result made
  of the heuristic's score, risk level and findings: it is stored for the tab, for the URL
  and as the last scan, it enters the history, the icon is the one of its score (the danger
  icon), the banner is requested when warnings are on, and the popup is notified. If the
  heuristic does not, the scan throws the error that carries the status, and the state is
  the one the started scan left: nothing is stored, the settings, the banners and the
  messages are as before.
\<close>

theorem dead_site_fallback:
  "(\<not> ok resp \<and> checkSuspiciousDomain u = Suspicious s rl f \<longrightarrow>
      snd (scanUrl_try u tabId (Resolved resp) t_set t_cb st) =
        Inr \<lparr>score = Some s, risk_level = rl, findings = f\<rparr>
      \<and> storage (scanUrl u tabId (Resolved resp) t_set t_cb st) (tab_key tabId) =
          Some (ScanV \<lparr>score = Some s, risk_level = rl, findings = f\<rparr>)
      \<and> storage (scanUrl u tabId (Resolved resp) t_set t_cb st) (url_key u) =
          Some (ScanV \<lparr>score = Some s, risk_level = rl, findings = f\<rparr>)
      \<and> storage (scanUrl u tabId (Resolved resp) t_set t_cb st) ''lastScan'' =
          Some (LastScanV \<lparr>ls_tabId = tabId, ls_url = u,
                  ls_result = \<lparr>score = Some s, risk_level = rl, findings = f\<rparr>,
                  ls_timestamp = t_set\<rparr>)
      \<and> scanHistory (settings (scanUrl u tabId (Resolved resp) t_set t_cb st)) =
          push_history \<lparr>h_url = u, h_score = s, h_risk_level = rl, h_timestamp = t_cb\<rparr>
            (scanHistory (settings st))
      \<and> icons (scanUrl u tabId (Resolved resp) t_set t_cb st) tabId = Some (iconPath_for (Some s))
      \<and> iconPath_for (Some s) = danger
      \<and> banners (scanUrl u tabId (Resolved resp) t_set t_cb st) =
          (if showWarnings (settings st) then (tabId, Some s) # banners st else banners st)
      \<and> messages (scanUrl u tabId (Resolved resp) t_set t_cb st) =
          (tabId, \<lparr>score = Some s, risk_level = rl, findings = f\<rparr>) # messages st)
   \<and> (\<not> ok resp \<and> checkSuspiciousDomain u = NotSuspicious \<longrightarrow>
      snd (scanUrl_try u tabId (Resolved resp) t_set t_cb st) = Inl (ApiError (status resp))
      \<and> scanUrl u tabId (Resolved resp) t_set t_cb st = scan_started tabId st
      \<and> storage (scanUrl u tabId (Resolved resp) t_set t_cb st) = (storage st)(tab_key tabId := None)
      \<and> settings (scanUrl u tabId (Resolved resp) t_set t_cb st) = settings st
      \<and> banners (scanUrl u tabId (Resolved resp) t_set t_cb st) = banners st
      \<and> messages (scanUrl u tabId (Resolved resp) t_set t_cb st) = messages st)
   \<and> ok resp = (200 \<le> status resp \<and> status resp \<le> 299)"
proof (intro conjI impI)
  assume a: "\<not> ok resp \<and> checkSuspiciousDomain u = Suspicious s rl f"
  then have n: "\<not> ok resp" and c: "checkSuspiciousDomain u = Suspicious s rl f"
    by simp_all
  let ?r = "\<lparr>score = Some s, risk_level = rl, findings = f\<rparr>"
  let ?st = "scanUrl u tabId (Resolved resp) t_set t_cb st"
  note e = fallback_suspicious(2) [OF n c, of tabId t_set t_cb st]
  from heuristic_high [OF c] have s70: "70 \<le> s" by simp
  show "snd (scanUrl_try u tabId (Resolved resp) t_set t_cb st) = Inr ?r"
    by (rule fallback_suspicious(1) [OF n c])
  show "storage ?st (tab_key tabId) = Some (ScanV ?r)"
    by (simp add: e settle_storage store_tab_entry)
  show "storage ?st (url_key u) = Some (ScanV ?r)"
    by (simp add: e settle_storage store_url_entry)
  show "storage ?st ''lastScan'' =
          Some (LastScanV \<lparr>ls_tabId = tabId, ls_url = u, ls_result = ?r, ls_timestamp = t_set\<rparr>)"
    by (simp add: e settle_storage store_lastScan)
  show "scanHistory (settings ?st) =
          push_history \<lparr>h_url = u, h_score = s, h_risk_level = rl, h_timestamp = t_cb\<rparr>
            (scanHistory (settings st))"
    by (simp add: e settle_settings store_history_Some scan_started_rest)
  show "icons ?st tabId = Some (iconPath_for (Some s))"
    by (simp add: e settle_icon)
  show "iconPath_for (Some s) = danger"
    using s70 by (simp add: iconPath_for_def)
  show "banners ?st = (if showWarnings (settings st) then (tabId, Some s) # banners st else banners st)"
    using s70 by (simp add: e settle_banners scan_started_rest)
  show "messages ?st = (tabId, ?r) # messages st"
    by (simp add: e settle_messages scan_started_rest)
next
  assume a: "\<not> ok resp \<and> checkSuspiciousDomain u = NotSuspicious"
  then have n: "\<not> ok resp" and c: "checkSuspiciousDomain u = NotSuspicious"
    by simp_all
  let ?st = "scanUrl u tabId (Resolved resp) t_set t_cb st"
  note e = fallback_clean(2) [OF n c, of tabId t_set t_cb st]
  show "snd (scanUrl_try u tabId (Resolved resp) t_set t_cb st) = Inl (ApiError (status resp))"
    by (rule fallback_clean(1) [OF n c])
  show "?st = scan_started tabId st" by (rule e)
  show "storage ?st = (storage st)(tab_key tabId := None)"
    by (simp add: e scan_started_storage)
  show "settings ?st = settings st" by (simp add: e scan_started_rest)
  show "banners ?st = banners st" by (simp add: e scan_started_rest)
  show "messages ?st = messages st" by (simp add: e scan_started_rest)
next
  show "ok resp = (200 \<le> status resp \<and> status resp \<le> 299)"
    by (simp add: ok_def)
qed

lemma dead_site_facts:
  "suspicious (checkSuspiciousDomain ''http://micr0soft.com/'')
   \<and> dc_score (checkSuspiciousDomain ''http://micr0soft.com/'') = 90
   \<and> checkSuspiciousDomain ''https://example.com/'' = NotSuspicious"
  by code_simp

theorem dead_site_fallback_witness:
  "\<not> ok (Response 502 None)
   \<and> suspicious (checkSuspiciousDomain ''http://micr0soft.com/'')
   \<and> storage (scanUrl ''http://micr0soft.com/'' 1 (Resolved (Response 502 None)) 1000 1001 initial_state)
        (tab_key 1) =
       Some (ScanV \<lparr>score = Some 90,
                     risk_level = dc_risk_level (checkSuspiciousDomain ''http://micr0soft.com/''),
                     findings = dc_findings (checkSuspiciousDomain ''http://micr0soft.com/'')\<rparr>)
   \<and> icons (scanUrl ''http://micr0soft.com/'' 1 (Resolved (Response 502 None)) 1000 1001 initial_state) 1
       = Some danger
   \<and> banners (scanUrl ''http://micr0soft.com/'' 1 (Resolved (Response 502 None)) 1000 1001 initial_state)
       = [(1, Some 90)]
   \<and> checkSuspiciousDomain ''https://example.com/'' = NotSuspicious
   \<and> snd (scanUrl_try ''https://example.com/'' 1 (Resolved (Response 502 None)) 1000 1001 initial_state)
       = Inl (ApiError 502)
   \<and> storage (scanUrl ''https://example.com/'' 1 (Resolved (Response 502 None)) 1000 1001 initial_state)
        (tab_key 1) = None"
proof -
  let ?m = "''http://micr0soft.com/''"
  let ?x = "''https://example.com/''"
  let ?resp = "Response 502 None"
  let ?rl = "dc_risk_level (checkSuspiciousDomain ?m)"
  let ?f = "dc_findings (checkSuspiciousDomain ?m)"
  have n: "\<not> ok ?resp" by (simp add: ok_def)
  have sus: "suspicious (checkSuspiciousDomain ?m)"
    by (rule dead_site_facts [THEN conjunct1])
  have sc: "dc_score (checkSuspiciousDomain ?m) = 90"
    by (rule dead_site_facts [THEN conjunct2, THEN conjunct1])
  have cl: "checkSuspiciousDomain ?x = NotSuspicious"
    by (rule dead_site_facts [THEN conjunct2, THEN conjunct2])
  from sus sc have c: "checkSuspiciousDomain ?m = Suspicious 90 ?rl ?f"
    by (cases "checkSuspiciousDomain ?m") simp_all
  note t = dead_site_fallback [where resp = ?resp and tabId = 1 and ?t_set.0 = 1000
      and ?t_cb.0 = 1001 and st = initial_state]
  note t1 = t [where u = ?m and s = 90 and rl = ?rl and f = ?f,
      THEN conjunct1, THEN mp, OF conjI [OF n c]]
  note t2 = t [where u = ?x, THEN conjunct2, THEN conjunct1, THEN mp, OF conjI [OF n cl]]
  have w: "showWarnings (settings initial_state)" "banners initial_state = []"
    by (simp_all add: initial_state_def default_settings_def)
  have r1: "storage (scanUrl ?m 1 (Resolved ?resp) 1000 1001 initial_state) (tab_key 1) =
       Some (ScanV \<lparr>score = Some 90, risk_level = ?rl, findings = ?f\<rparr>)"
    using t1 by (elim conjE)
  have r2: "icons (scanUrl ?m 1 (Resolved ?resp) 1000 1001 initial_state) 1 = Some danger"
    using t1 by (elim conjE) (simp only:)
  have r3: "banners (scanUrl ?m 1 (Resolved ?resp) 1000 1001 initial_state) = [(1, Some 90)]"
    using t1 w by (elim conjE) (simp only: if_True)
  have r4: "snd (scanUrl_try ?x 1 (Resolved ?resp) 1000 1001 initial_state) = Inl (ApiError 502)"
    using t2 by (elim conjE) simp
  have r5: "storage (scanUrl ?x 1 (Resolved ?resp) 1000 1001 initial_state) (tab_key 1) = None"
    using t2 by (elim conjE) simp
  from n sus r1 r2 r3 cl r4 r5 show ?thesis
    by (intro conjI)
qed

section \<open>Freshness and the query\<close>

lemma fresh_iff:
  "fresh st tabId now =
     (\<exists>scan lastScan. storage st (tab_key tabId) = Some scan
        \<and> storage st ''lastScan'' = Some (LastScanV lastScan)
        \<and> ls_tabId lastScan = tabId
        \<and> now - ls_timestamp lastScan < 30000)"
  by (auto simp: fresh_def split: option.splits stored.splits)

lemma fresh_after_store:
  "fresh (storeScanResult tabId u r T t_cb st) tabId now = (now - T < 30000)"
  by (simp add: fresh_def store_tab_entry store_lastScan)

lemma fresh_other_tab:
  "storage st ''lastScan'' = Some (LastScanV lastScan) \<Longrightarrow> ls_tabId lastScan \<noteq> B \<Longrightarrow>
   \<not> fresh st B now"
  by (simp add: fresh_def split: option.splits)

lemma fresh_has_entry: "fresh st tabId now \<Longrightarrow> storage st (tab_key tabId) \<noteq> None"
  by (auto simp: fresh_iff)

lemma query_fresh:
  "fresh st (tab_id tb) now \<Longrightarrow>
   getCurrentScan (Some tb) now outcome t_set t_cb in_grace before after st =
     (storage st (tab_key (tab_id tb)), st)"
  by (simp add: getCurrentScan_def)

lemma query_stale_url:
  "\<not> fresh st (tab_id tb) now \<Longrightarrow> tab_url tb = Some u \<Longrightarrow> u \<noteq> [] \<Longrightarrow>
   getCurrentScan (Some tb) now outcome t_set t_cb in_grace before after st =
     (storage
        (run_events
           (if in_grace
            then apply_event (finish_event u (tab_id tb) outcome t_set t_cb)
                   (run_events (scan_started (tab_id tb) st) before)
            else run_events (scan_started (tab_id tb) st) before)
           after)
        (tab_key (tab_id tb)),
      run_events
        (if in_grace
         then apply_event (finish_event u (tab_id tb) outcome t_set t_cb)
                (run_events (scan_started (tab_id tb) st) before)
         else run_events (scan_started (tab_id tb) st) before)
        after)"
  by (simp add: getCurrentScan_def Let_def)

lemma query_stale_no_url:
  "\<not> fresh st (tab_id tb) now \<Longrightarrow> tab_url tb = None \<or> tab_url tb = Some [] \<Longrightarrow>
   getCurrentScan (Some tb) now outcome t_set t_cb in_grace before after st = (None, st)"
  by (auto simp: getCurrentScan_def)

lemma query_after_store_fresh:
  "getCurrentScan (Some \<lparr>tab_id = tabId, tab_url = x\<rparr>) (T + 29000) outcome t_set t_cb in_grace
     before after (storeScanResult tabId u r T t_cb' st) =
     (Some (ScanV r), storeScanResult tabId u r T t_cb' st)"
proof -
  have "fresh (storeScanResult tabId u r T t_cb' st) (tab_id \<lparr>tab_id = tabId, tab_url = x\<rparr>) (T + 29000)"
    by (simp add: fresh_after_store)
  from query_fresh [OF this] show ?thesis
    by (simp add: store_tab_entry)
qed

lemma query_after_store_stale:
  "u' \<noteq> [] \<Longrightarrow>
   getCurrentScan (Some \<lparr>tab_id = tabId, tab_url = Some u'\<rparr>) (T + 31000) outcome t_set t_cb False
     [] [] (storeScanResult tabId u r T t_cb' st) =
     (None, scan_started tabId (storeScanResult tabId u r T t_cb' st))"
proof -
  assume u: "u' \<noteq> []"
  have "\<not> fresh (storeScanResult tabId u r T t_cb' st)
            (tab_id \<lparr>tab_id = tabId, tab_url = Some u'\<rparr>) (T + 31000)"
    by (simp add: fresh_after_store)
  from query_stale_url [OF this _ u, of _ _ _ False "[]" "[]"] show ?thesis
    by (simp add: scan_started_storage)
qed

text \<open>
  Claim C6. The \<^verbatim>\<open>getCurrentScan\<close> query treats the record of the active tab as fresh iff
  the tab has an entry, the last-scan pointer names this tab, and the current time minus
  the pointer's timestamp is less than 30000 ms. When the record is fresh the handler
  answers with the tab's entry and starts no scan; when it is not, the handler starts a
  scan if the tab has a URL and answers with the entry as it is 1.5 seconds later, and
  answers null if the tab has none. So for a record written at time \<open>T\<close>, a query for the
  same tab at \<open>T\<close> plus 29 seconds is answered with the written result from the cache, and
  at \<open>T\<close> plus 31 seconds the record is stale: the handler starts a scan, and answers null
  if nothing has been stored by the time of its read. When the pointer names tab \<open>A\<close> no
  record is fresh for another tab \<open>B\<close>.
\<close>

theorem freshness:
  "fresh st tabId now =
     (\<exists>scan lastScan. storage st (tab_key tabId) = Some scan
        \<and> storage st ''lastScan'' = Some (LastScanV lastScan)
        \<and> ls_tabId lastScan = tabId
        \<and> now - ls_timestamp lastScan < 30000)
   \<and> (fresh st (tab_id tb) now \<longrightarrow>
        getCurrentScan (Some tb) now outcome t_set t_cb in_grace before after st =
          (storage st (tab_key (tab_id tb)), st)
        \<and> storage st (tab_key (tab_id tb)) \<noteq> None)
   \<and> (\<not> fresh st (tab_id tb) now \<and> tab_url tb = Some u' \<and> u' \<noteq> [] \<longrightarrow>
        getCurrentScan (Some tb) now outcome t_set t_cb in_grace before after st =
          (storage
             (run_events
                (if in_grace
                 then apply_event (finish_event u' (tab_id tb) outcome t_set t_cb)
                        (run_events (scan_started (tab_id tb) st) before)
                 else run_events (scan_started (tab_id tb) st) before)
                after)
             (tab_key (tab_id tb)),
           run_events
             (if in_grace
              then apply_event (finish_event u' (tab_id tb) outcome t_set t_cb)
                     (run_events (scan_started (tab_id tb) st) before)
              else run_events (scan_started (tab_id tb) st) before)
             after))
   \<and> (\<not> fresh st (tab_id tb) now \<and> (tab_url tb = None \<or> tab_url tb = Some []) \<longrightarrow>
        getCurrentScan (Some tb) now outcome t_set t_cb in_grace before after st = (None, st))
   \<and> fresh (storeScanResult tabId u r T t_cb' st) tabId (T + 29000)
   \<and> \<not> fresh (storeScanResult tabId u r T t_cb' st) tabId (T + 31000)
   \<and> getCurrentScan (Some \<lparr>tab_id = tabId, tab_url = x\<rparr>) (T + 29000) outcome t_set t_cb in_grace
        before after (storeScanResult tabId u r T t_cb' st) =
        (Some (ScanV r), storeScanResult tabId u r T t_cb' st)
   \<and> (u' \<noteq> [] \<longrightarrow>
        getCurrentScan (Some \<lparr>tab_id = tabId, tab_url = Some u'\<rparr>) (T + 31000) outcome t_set t_cb
          False [] [] (storeScanResult tabId u r T t_cb' st) =
          (None, scan_started tabId (storeScanResult tabId u r T t_cb' st)))
   \<and> (storage st ''lastScan'' = Some (LastScanV pointer) \<and> ls_tabId pointer = A \<and> B \<noteq> A \<longrightarrow>
        \<not> fresh st B now)"
proof (intro conjI impI)
  show "fresh st tabId now =
     (\<exists>scan lastScan. storage st (tab_key tabId) = Some scan
        \<and> storage st ''lastScan'' = Some (LastScanV lastScan)
        \<and> ls_tabId lastScan = tabId
        \<and> now - ls_timestamp lastScan < 30000)"
    by (rule fresh_iff)
next
  assume f: "fresh st (tab_id tb) now"
  show "getCurrentScan (Some tb) now outcome t_set t_cb in_grace before after st =
          (storage st (tab_key (tab_id tb)), st)"
    by (rule query_fresh [OF f])
  show "storage st (tab_key (tab_id tb)) \<noteq> None"
    by (rule fresh_has_entry [OF f])
next
  assume a: "\<not> fresh st (tab_id tb) now \<and> tab_url tb = Some u' \<and> u' \<noteq> []"
  then show "getCurrentScan (Some tb) now outcome t_set t_cb in_grace before after st =
          (storage
             (run_events
                (if in_grace
                 then apply_event (finish_event u' (tab_id tb) outcome t_set t_cb)
                        (run_events (scan_started (tab_id tb) st) before)
                 else run_events (scan_started (tab_id tb) st) before)
                after)
             (tab_key (tab_id tb)),
           run_events
             (if in_grace
              then apply_event (finish_event u' (tab_id tb) outcome t_set t_cb)
                     (run_events (scan_started (tab_id tb) st) before)
              else run_events (scan_started (tab_id tb) st) before)
             after)"
    using query_stale_url [of st tb now u' outcome t_set t_cb in_grace before after] by blast
next
  assume "\<not> fresh st (tab_id tb) now \<and> (tab_url tb = None \<or> tab_url tb = Some [])"
  then show "getCurrentScan (Some tb) now outcome t_set t_cb in_grace before after st = (None, st)"
    using query_stale_no_url [of st tb now outcome t_set t_cb in_grace before after] by blast
next
  show "fresh (storeScanResult tabId u r T t_cb' st) tabId (T + 29000)"
    by (simp add: fresh_after_store)
  show "\<not> fresh (storeScanResult tabId u r T t_cb' st) tabId (T + 31000)"
    by (simp add: fresh_after_store)
  show "getCurrentScan (Some \<lparr>tab_id = tabId, tab_url = x\<rparr>) (T + 29000) outcome t_set t_cb in_grace
        before after (storeScanResult tabId u r T t_cb' st) =
        (Some (ScanV r), storeScanResult tabId u r T t_cb' st)"
    by (rule query_after_store_fresh)
next
  assume "u' \<noteq> []"
  then show "getCurrentScan (Some \<lparr>tab_id = tabId, tab_url = Some u'\<rparr>) (T + 31000) outcome t_set t_cb
          False [] [] (storeScanResult tabId u r T t_cb' st) =
          (None, scan_started tabId (storeScanResult tabId u r T t_cb' st))"
    by (rule query_after_store_stale)
next
  assume "storage st ''lastScan'' = Some (LastScanV pointer) \<and> ls_tabId pointer = A \<and> B \<noteq> A"
  then show "\<not> fresh st B now"
    using fresh_other_tab [of st pointer B now] by auto
qed

theorem freshness_witness:
  "fresh (storeScanResult 1 ''https://example.com/'' (sample_result 90) 5000 5001 initial_state) 1 6000
   \<and> getCurrentScan (Some \<lparr>tab_id = 1, tab_url = Some ''https://example.com/''\<rparr>) 6000
         Rejected 6000 6001 True [] []
         (storeScanResult 1 ''https://example.com/'' (sample_result 90) 5000 5001 initial_state) =
       (Some (ScanV (sample_result 90)),
        storeScanResult 1 ''https://example.com/'' (sample_result 90) 5000 5001 initial_state)
   \<and> storage (storeScanResult 1 ''https://example.com/'' (sample_result 90) 5000 5001 initial_state)
        ''lastScan'' =
       Some (LastScanV \<lparr>ls_tabId = 1, ls_url = ''https://example.com/'',
                         ls_result = sample_result 90, ls_timestamp = 5000\<rparr>)
   \<and> (2::int) \<noteq> 1
   \<and> \<not> fresh (storeScanResult 1 ''https://example.com/'' (sample_result 90) 5000 5001 initial_state)
         2 6000
   \<and> fst (getCurrentScan (Some \<lparr>tab_id = 2, tab_url = Some ''https://example.org/''\<rparr>) 6000
             Rejected 6000 6001 True [] []
             (storeScanResult 1 ''https://example.com/'' (sample_result 90) 5000 5001 initial_state))
       = None
   \<and> getCurrentScan (Some \<lparr>tab_id = 2, tab_url = None\<rparr>) 6000 Rejected 6000 6001 True [] []
         (storeScanResult 1 ''https://example.com/'' (sample_result 90) 5000 5001 initial_state) =
       (None, storeScanResult 1 ''https://example.com/'' (sample_result 90) 5000 5001 initial_state)
   \<and> ''https://example.com/'' \<noteq> []
   \<and> getCurrentScan (Some \<lparr>tab_id = 1, tab_url = Some ''https://example.com/''\<rparr>) (5000 + 31000)
         Rejected 36000 36001 False [] []
         (storeScanResult 1 ''https://example.com/'' (sample_result 90) 5000 5001 initial_state) =
       (None,
        scan_started 1
          (storeScanResult 1 ''https://example.com/'' (sample_result 90) 5000 5001 initial_state))"
proof -
  let ?u = "''https://example.com/''"
  let ?v = "''https://example.org/''"
  let ?st = "storeScanResult 1 ?u (sample_result 90) 5000 5001 initial_state"
  let ?p = "\<lparr>ls_tabId = 1, ls_url = ?u, ls_result = sample_result 90, ls_timestamp = 5000\<rparr>"
  let ?t1 = "\<lparr>tab_id = 1, tab_url = Some ?u\<rparr>"
  let ?t2 = "\<lparr>tab_id = 2, tab_url = Some ?v\<rparr>"
  let ?t3 = "\<lparr>tab_id = 2, tab_url = None :: string option\<rparr>"
  have p: "storage ?st ''lastScan'' = Some (LastScanV ?p)"
    by (rule store_lastScan)
  have q: "ls_tabId ?p = 1" by simp
  have n: "(2::int) \<noteq> 1" by simp
  have ne: "?u \<noteq> []" by simp
  have ne': "?v \<noteq> []" by simp
  have f: "fresh ?st (tab_id ?t1) 6000"
    by (simp add: fresh_after_store)
  note a = freshness [where st = ?st and now = 6000 and outcome = Rejected and ?t_set.0 = 6000
      and ?t_cb.0 = 6001 and in_grace = True and before = "[]" and after = "[]"
      and pointer = ?p and A = 1 and B = 2]
  have o: "\<not> fresh ?st 2 6000"
    by (rule a [THEN conjunct2, THEN conjunct2, THEN conjunct2, THEN conjunct2, THEN conjunct2,
                THEN conjunct2, THEN conjunct2, THEN conjunct2, THEN mp,
                OF conjI [OF p conjI [OF q n]]])
  have r1: "getCurrentScan (Some ?t1) 6000 Rejected 6000 6001 True [] [] ?st =
              (Some (ScanV (sample_result 90)), ?st)"
    using a [where tb = ?t1, THEN conjunct2, THEN conjunct1, THEN mp, OF f]
    by (simp add: store_tab_entry)
  have s2: "\<not> fresh ?st (tab_id ?t2) 6000 \<and> tab_url ?t2 = Some ?v \<and> ?v \<noteq> []"
    using o by simp
  have r2: "fst (getCurrentScan (Some ?t2) 6000 Rejected 6000 6001 True [] [] ?st) = None"
    using a [where tb = ?t2 and u' = ?v, THEN conjunct2, THEN conjunct2, THEN conjunct1, THEN mp,
             OF s2]
    by (simp add: finish_event_def safeSetIcon_def scan_started_storage)
  have s3: "\<not> fresh ?st (tab_id ?t3) 6000 \<and> (tab_url ?t3 = None \<or> tab_url ?t3 = Some [])"
    using o by simp
  have r3: "getCurrentScan (Some ?t3) 6000 Rejected 6000 6001 True [] [] ?st = (None, ?st)"
    by (rule a [where tb = ?t3, THEN conjunct2, THEN conjunct2, THEN conjunct2, THEN conjunct1,
                THEN mp, OF s3])
  have r4: "getCurrentScan (Some ?t1) (5000 + 31000) Rejected 36000 36001 False [] [] ?st =
              (None, scan_started 1 ?st)"
    by (rule freshness [where tabId = 1 and u' = ?u and T = 5000 and u = ?u
          and r = "sample_result 90" and t_cb' = 5001 and st = initial_state
          and outcome = Rejected and ?t_set.0 = 36000 and ?t_cb.0 = 36001,
          THEN conjunct2, THEN conjunct2, THEN conjunct2, THEN conjunct2, THEN conjunct2,
          THEN conjunct2, THEN conjunct2, THEN conjunct1, THEN mp, OF ne])
  have f1: "fresh ?st 1 6000" using f by simp
  from f1 r1 p n o r2 r3 ne r4 show ?thesis
    by (intro conjI)
qed

section \<open>Steps of scans in flight\<close>

lemma scanUrl_as_events:
  "scanUrl u tabId outcome t_set t_cb st =
     apply_event (finish_event u tabId outcome t_set t_cb) (scan_started tabId st)"
proof (cases "snd (scanUrl_try u tabId outcome t_set t_cb st)")
  case (Inl e)
  then have "finish_event u tabId outcome t_set t_cb = Failed tabId"
    by (auto simp: try_failed_iff finish_event_def)
  with scanUrl_failed [OF Inl] show ?thesis
    by (simp add: safe_icon_again)
next
  case (Inr r)
  then have "finish_event u tabId outcome t_set t_cb = Settled tabId u r t_set t_cb"
    by (auto simp: scanUrl_try_def finish_event_def Let_def
          split: fetch_outcome.splits if_splits domain_check.splits option.splits)
  with scanUrl_settled [OF Inr] show ?thesis
    by simp
qed

lemma run_events_append: "run_events st (es @ fs) = run_events (run_events st es) fs"
  by (induction es arbitrary: st) simp_all

lemma settled_results_append:
  "settled_results (es @ fs) = settled_results es @ settled_results fs"
  by (induction es rule: settled_results.induct) simp_all

lemma store_key_cases:
  "k \<noteq> ''lastScan'' \<Longrightarrow> k \<noteq> ''settings'' \<Longrightarrow>
   storage (storeScanResult tabId u r t_set t_cb st) k =
     (if k = tab_key tabId \<or> k = url_key u then Some (ScanV r) else storage st k)"
  by (auto simp: store_tab_entry store_url_entry store_other_key)

text \<open>
  An entry under a key of scan results is absent or is a result from a list \<open>rs\<close>; each
  step keeps this, with the result it settles added to the list.
\<close>

lemma apply_event_entry:
  assumes "k \<noteq> ''lastScan''" and "k \<noteq> ''settings''"
    and "storage st k = None \<or> (\<exists>r. storage st k = Some (ScanV r) \<and> r \<in> set rs)"
  shows "storage (apply_event e st) k = None
         \<or> (\<exists>r. storage (apply_event e st) k = Some (ScanV r)
                \<and> r \<in> set (rs @ settled_results [e]))"
proof (cases e)
  case (Started t)
  with assms(3) show ?thesis by (auto simp: scan_started_storage)
next
  case (Settled t u r t_set t_cb)
  with assms show ?thesis
    by (auto simp: settle_storage store_key_cases)
next
  case (Failed t)
  with assms(3) show ?thesis by (auto simp: safeSetIcon_def)
qed

lemma run_events_entry:
  assumes "k \<noteq> ''lastScan''" and "k \<noteq> ''settings''"
  shows "storage st k = None \<or> (\<exists>r. storage st k = Some (ScanV r) \<and> r \<in> set rs) \<Longrightarrow>
         storage (run_events st es) k = None
         \<or> (\<exists>r. storage (run_events st es) k = Some (ScanV r)
                \<and> r \<in> set (rs @ settled_results es))"
proof (induction es arbitrary: st rs)
  case Nil
  then show ?case by simp
next
  case (Cons e es)
  have eq: "(rs @ settled_results [e]) @ settled_results es = rs @ settled_results (e # es)"
    using settled_results_append [of "[e]" es] by simp
  from apply_event_entry [OF assms Cons.prems]
  have "storage (apply_event e st) k = None
        \<or> (\<exists>r. storage (apply_event e st) k = Some (ScanV r)
               \<and> r \<in> set (rs @ settled_results [e]))" .
  from Cons.IH [OF this]
  have "storage (run_events (apply_event e st) es) k = None
        \<or> (\<exists>r. storage (run_events (apply_event e st) es) k = Some (ScanV r)
               \<and> r \<in> set ((rs @ settled_results [e]) @ settled_results es))" .
  from this [unfolded eq] show ?case by simp
qed

lemma started_then_events:
  "storage (run_events (scan_started tabId st) es) (tab_key tabId) = None
   \<or> (\<exists>r. storage (run_events (scan_started tabId st) es) (tab_key tabId) = Some (ScanV r)
          \<and> r \<in> set (settled_results es))"
proof -
  have "storage (scan_started tabId st) (tab_key tabId) = None
        \<or> (\<exists>r. storage (scan_started tabId st) (tab_key tabId) = Some (ScanV r) \<and> r \<in> set [])"
    by (simp add: scan_started_storage)
  from run_events_entry [OF _ _ this, of es] show ?thesis by simp
qed

text \<open>The steps of the query's own scan that happen before the read.\<close>

lemma query_state:
  "\<not> fresh st (tab_id tb) now \<Longrightarrow> tab_url tb = Some u \<Longrightarrow> u \<noteq> [] \<Longrightarrow>
   getCurrentScan (Some tb) now outcome t_set t_cb in_grace before after st =
     (storage
        (run_events (scan_started (tab_id tb) st)
           (before @ (if in_grace then [finish_event u (tab_id tb) outcome t_set t_cb] else [])
              @ after))
        (tab_key (tab_id tb)),
      run_events (scan_started (tab_id tb) st)
        (before @ (if in_grace then [finish_event u (tab_id tb) outcome t_set t_cb] else [])
           @ after))"
  by (simp add: query_stale_url run_events_append)

lemma query_answer:
  assumes "storage st (tab_key (tab_id tb)) = None
           \<or> (\<exists>r. storage st (tab_key (tab_id tb)) = Some (ScanV r) \<and> r \<in> set rs)"
  shows "fst (getCurrentScan (Some tb) now outcome t_set t_cb in_grace before after st) = None
         \<or> (\<exists>r. fst (getCurrentScan (Some tb) now outcome t_set t_cb in_grace before after st) =
                  Some (ScanV r)
                \<and> r \<in> set (rs @ settled_results
                     (before
                      @ (case tab_url tb of
                           None \<Rightarrow> []
                         | Some u \<Rightarrow>
                             if in_grace then [finish_event u (tab_id tb) outcome t_set t_cb]
                             else [])
                      @ after)))"
proof (cases "fresh st (tab_id tb) now")
  case True
  from query_fresh [OF True] assms show ?thesis by auto
next
  case False
  note nf = this
  show ?thesis
  proof (cases "tab_url tb")
    case None
    with nf show ?thesis by (simp add: query_stale_no_url)
  next
    case (Some u)
    show ?thesis
    proof (cases "u = []")
      case True
      with nf Some show ?thesis by (simp add: query_stale_no_url)
    next
      case False
      let ?es = "before @ (if in_grace then [finish_event u (tab_id tb) outcome t_set t_cb] else [])
                   @ after"
      from started_then_events [of "tab_id tb" st ?es] query_state [OF nf Some False]
      have "fst (getCurrentScan (Some tb) now outcome t_set t_cb in_grace before after st) = None
            \<or> (\<exists>r. fst (getCurrentScan (Some tb) now outcome t_set t_cb in_grace before after st) =
                     Some (ScanV r)
                   \<and> r \<in> set (settled_results ?es))"
        by simp
      with Some show ?thesis by auto
    qed
  qed
qed

section \<open>A scan that fails\<close>

lemma settled_tab_entry:
  "snd (scanUrl_try u tabId outcome t_set t_cb st) = Inr r \<Longrightarrow>
   storage (scanUrl u tabId outcome t_set t_cb st) (tab_key tabId) = Some (ScanV r)"
  by (simp add: scanUrl_settled settle_storage store_tab_entry)

lemma failed_tab_entry:
  "snd (scanUrl_try u tabId outcome t_set t_cb st) = Inl e \<Longrightarrow>
   storage (scanUrl u tabId outcome t_set t_cb st) (tab_key tabId) = None"
  by (simp add: scanUrl_failed scan_started_storage)

text \<open>
  The answer of \<^verbatim>\<open>getCurrentScan\<close> for a tab in a state where the tab has no entry, when no
  other scan is in flight: the record is not fresh, so the handler starts a scan of its
  own and answers with what the tab's entry is 1.5 seconds later.
\<close>

lemma query_without_entry:
  assumes "storage st (tab_key (tab_id tb)) = None"
  shows "fst (getCurrentScan (Some tb) now outcome t_set t_cb in_grace [] [] st) =
           (case tab_url tb of
              None \<Rightarrow> None
            | Some u \<Rightarrow>
                if u = [] \<or> \<not> in_grace then None
                else (case snd (scanUrl_try u (tab_id tb) outcome t_set t_cb st) of
                        Inl e \<Rightarrow> None
                      | Inr r \<Rightarrow> Some (ScanV r)))"
proof -
  from assms have nf: "\<not> fresh st (tab_id tb) now"
    by (simp add: fresh_def)
  show ?thesis
  proof (cases "tab_url tb")
    case None
    with nf show ?thesis by (simp add: query_stale_no_url)
  next
    case (Some u)
    show ?thesis
    proof (cases "u = []")
      case True
      with nf Some show ?thesis by (simp add: query_stale_no_url)
    next
      case False
      note u = this
      show ?thesis
      proof (cases in_grace)
        case False
        with Some u query_state [OF nf Some u, of outcome t_set t_cb False "[]" "[]"]
        show ?thesis by (simp add: scan_started_storage)
      next
        case True
        note g = this
        from query_state [OF nf Some u, of outcome t_set t_cb True "[]" "[]"]
        have q: "fst (getCurrentScan (Some tb) now outcome t_set t_cb True [] [] st) =
                   storage (scanUrl u (tab_id tb) outcome t_set t_cb st) (tab_key (tab_id tb))"
          by (simp add: scanUrl_as_events)
        show ?thesis
        proof (cases "snd (scanUrl_try u (tab_id tb) outcome t_set t_cb st)")
          case (Inl e)
          with Some u g q failed_tab_entry [OF Inl] show ?thesis by simp
        next
          case (Inr r)
          with Some u g q settled_tab_entry [OF Inr] show ?thesis by simp
        qed
      qed
    qed
  qed
qed

text \<open>
  Claim C7, as the code has it. A scan fails exactly when the fetch is rejected (a
  transport failure or the abort after the timeout), when the status is not ok and the
  heuristic finds nothing, or when the body of an ok response is not JSON; an ok
  response with a JSON body is settled and stored whatever the body lacks. When a scan of
  a tab fails, it leaves the state as it was right after its start: the safe icon is set
  for the tab, the tab's entry is removed and no other key of the storage has changed,
  the scan has written nothing, requested no banner and sent no message, and nothing is
  run again. A \<^verbatim>\<open>getCurrentScan\<close> query for the tab, during the failed scan or after it,
  never answers with an entry from before the start of the failed scan: it answers null,
  or a result that a scan has settled since that start, which is the scan that the query
  itself starts or another scan in flight. With no other scan in flight it answers null
  unless its own scan has settled a result within the 1.5 seconds, and then that result.
\<close>

theorem failed_scan:
  "(snd (scanUrl_try u tabId outcome t_set t_cb st) = Inl e) =
     (outcome = Rejected \<and> e = ApiNotReachable
      \<or> (\<exists>resp. outcome = Resolved resp \<and> \<not> ok resp
                 \<and> checkSuspiciousDomain u = NotSuspicious \<and> e = ApiError (status resp))
      \<or> (\<exists>resp. outcome = Resolved resp \<and> ok resp \<and> body resp = None \<and> e = JsonError))
   \<and> (snd (scanUrl_try u tabId outcome t_set t_cb st) = Inl e \<longrightarrow>
        scanUrl u tabId outcome t_set t_cb st = scan_started tabId st
        \<and> icons (scanUrl u tabId outcome t_set t_cb st) tabId = Some safe
        \<and> storage (scanUrl u tabId outcome t_set t_cb st) (tab_key tabId) = None
        \<and> storage (scanUrl u tabId outcome t_set t_cb st) = (storage st)(tab_key tabId := None)
        \<and> settings (scanUrl u tabId outcome t_set t_cb st) = settings st
        \<and> banners (scanUrl u tabId outcome t_set t_cb st) = banners st
        \<and> messages (scanUrl u tabId outcome t_set t_cb st) = messages st
        \<and> \<not> fresh (scanUrl u tabId outcome t_set t_cb st) tabId now)
   \<and> (ok resp \<and> body resp = Some r \<longrightarrow>
        snd (scanUrl_try u tabId (Resolved resp) t_set t_cb st) = Inr r
        \<and> storage (scanUrl u tabId (Resolved resp) t_set t_cb st) (tab_key tabId) = Some (ScanV r))
   \<and> storage (scan_started tabId st) (tab_key tabId) = None
   \<and> \<not> fresh (scan_started tabId st) tabId now
   \<and> fst (getCurrentScan (Some tb) now outcome' t_set' t_cb' in_grace [] []
             (scan_started (tab_id tb) st)) =
       (case tab_url tb of
          None \<Rightarrow> None
        | Some u' \<Rightarrow>
            if u' = [] \<or> \<not> in_grace then None
            else (case snd (scanUrl_try u' (tab_id tb) outcome' t_set' t_cb'
                              (scan_started (tab_id tb) st)) of
                    Inl e' \<Rightarrow> None
                  | Inr r' \<Rightarrow> Some (ScanV r')))
   \<and> (fst (getCurrentScan (Some tb) now outcome' t_set' t_cb' in_grace before after
              (run_events (scan_started (tab_id tb) st) evs)) = None
       \<or> (\<exists>r'. fst (getCurrentScan (Some tb) now outcome' t_set' t_cb' in_grace before after
                     (run_events (scan_started (tab_id tb) st) evs)) = Some (ScanV r')
               \<and> r' \<in> set (settled_results
                    (evs @ before
                     @ (case tab_url tb of
                          None \<Rightarrow> []
                        | Some u' \<Rightarrow>
                            if in_grace then [finish_event u' (tab_id tb) outcome' t_set' t_cb']
                            else [])
                     @ after))))"
proof (intro conjI impI)
  show "(snd (scanUrl_try u tabId outcome t_set t_cb st) = Inl e) =
     (outcome = Rejected \<and> e = ApiNotReachable
      \<or> (\<exists>resp. outcome = Resolved resp \<and> \<not> ok resp
                 \<and> checkSuspiciousDomain u = NotSuspicious \<and> e = ApiError (status resp))
      \<or> (\<exists>resp. outcome = Resolved resp \<and> ok resp \<and> body resp = None \<and> e = JsonError))"
    by (rule try_failed_iff)
next
  assume f: "snd (scanUrl_try u tabId outcome t_set t_cb st) = Inl e"
  let ?st = "scanUrl u tabId outcome t_set t_cb st"
  note e = scanUrl_failed [OF f]
  show "?st = scan_started tabId st" by (rule e)
  show "icons ?st tabId = Some safe" by (simp add: e scan_started_icon)
  show "storage ?st (tab_key tabId) = None" by (simp add: e scan_started_storage)
  show "storage ?st = (storage st)(tab_key tabId := None)" by (simp add: e scan_started_storage)
  show "settings ?st = settings st" by (simp add: e scan_started_rest)
  show "banners ?st = banners st" by (simp add: e scan_started_rest)
  show "messages ?st = messages st" by (simp add: e scan_started_rest)
  show "\<not> fresh ?st tabId now" by (simp add: e not_fresh_started)
next
  assume a: "ok resp \<and> body resp = Some r"
  then have t: "scanUrl_try u tabId (Resolved resp) t_set t_cb st =
                  (settle tabId u r t_set t_cb (scan_started tabId st), Inr r)"
    by (simp add: try_ok_json)
  then show s: "snd (scanUrl_try u tabId (Resolved resp) t_set t_cb st) = Inr r"
    by simp
  show "storage (scanUrl u tabId (Resolved resp) t_set t_cb st) (tab_key tabId) = Some (ScanV r)"
    by (rule settled_tab_entry [OF s])
next
  show "storage (scan_started tabId st) (tab_key tabId) = None"
    by (simp add: scan_started_storage)
  show "\<not> fresh (scan_started tabId st) tabId now"
    by (rule not_fresh_started)
  have n: "storage (scan_started (tab_id tb) st) (tab_key (tab_id tb)) = None"
    by (simp add: scan_started_storage)
  from query_without_entry [OF n]
  show "fst (getCurrentScan (Some tb) now outcome' t_set' t_cb' in_grace [] []
             (scan_started (tab_id tb) st)) =
       (case tab_url tb of
          None \<Rightarrow> None
        | Some u' \<Rightarrow>
            if u' = [] \<or> \<not> in_grace then None
            else (case snd (scanUrl_try u' (tab_id tb) outcome' t_set' t_cb'
                              (scan_started (tab_id tb) st)) of
                    Inl e' \<Rightarrow> None
                  | Inr r' \<Rightarrow> Some (ScanV r')))" .
  from query_answer [OF started_then_events [of "tab_id tb" st evs],
      of now outcome' t_set' t_cb' in_grace before after]
  show "fst (getCurrentScan (Some tb) now outcome' t_set' t_cb' in_grace before after
              (run_events (scan_started (tab_id tb) st) evs)) = None
       \<or> (\<exists>r'. fst (getCurrentScan (Some tb) now outcome' t_set' t_cb' in_grace before after
                     (run_events (scan_started (tab_id tb) st) evs)) = Some (ScanV r')
               \<and> r' \<in> set (settled_results
                    (evs @ before
                     @ (case tab_url tb of
                          None \<Rightarrow> []
                        | Some u' \<Rightarrow>
                            if in_grace then [finish_event u' (tab_id tb) outcome' t_set' t_cb']
                            else [])
                     @ after)))"
    by (simp add: settled_results_append)
qed

theorem failed_scan_witness:
  "storage (run_writes initial_state sample_writes) (tab_key 1) = Some (ScanV (sample_result 21))
   \<and> snd (scanUrl_try ''https://example.com/'' 1 Rejected 30000 30001
             (run_writes initial_state sample_writes)) = Inl ApiNotReachable
   \<and> icons (scanUrl ''https://example.com/'' 1 Rejected 30000 30001
              (run_writes initial_state sample_writes)) 1 = Some safe
   \<and> storage (scanUrl ''https://example.com/'' 1 Rejected 30000 30001
                (run_writes initial_state sample_writes)) (tab_key 1) = None
   \<and> fst (getCurrentScan (Some \<lparr>tab_id = 1, tab_url = Some ''https://example.com/''\<rparr>) 31000
             Rejected 31000 31001 True [] []
             (scanUrl ''https://example.com/'' 1 Rejected 30000 30001
                (run_writes initial_state sample_writes))) = None
   \<and> ok (Response 200 (Some unscored_result))
   \<and> body (Response 200 (Some unscored_result)) = Some unscored_result
   \<and> storage (scanUrl ''https://example.com/'' 1 (Resolved (Response 200 (Some unscored_result)))
                30000 30001 (run_writes initial_state sample_writes)) (tab_key 1) =
       Some (ScanV unscored_result)"
proof -
  let ?u = "''https://example.com/''"
  let ?prev = "run_writes initial_state sample_writes"
  let ?tb = "\<lparr>tab_id = 1, tab_url = Some ?u\<rparr>"
  let ?resp = "Response 200 (Some unscored_result)"
  have p: "storage ?prev (tab_key 1) = Some (ScanV (sample_result 21))"
    by code_simp
  note t = failed_scan [where u = ?u and tabId = 1 and outcome = Rejected and ?t_set.0 = 30000
      and ?t_cb.0 = 30001 and st = ?prev and e = ApiNotReachable and tb = ?tb and now = 31000
      and outcome' = Rejected and t_set' = 31000 and t_cb' = 31001 and in_grace = True
      and resp = ?resp and r = unscored_result]
  have f: "snd (scanUrl_try ?u 1 Rejected 30000 30001 ?prev) = Inl ApiNotReachable"
    using t [THEN conjunct1] by simp
  note after = t [THEN conjunct2, THEN conjunct1, THEN mp, OF f]
  have s: "scanUrl ?u 1 Rejected 30000 30001 ?prev = scan_started 1 ?prev"
    by (rule after [THEN conjunct1])
  have i: "icons (scanUrl ?u 1 Rejected 30000 30001 ?prev) 1 = Some safe"
    by (rule after [THEN conjunct2, THEN conjunct1])
  have n: "storage (scanUrl ?u 1 Rejected 30000 30001 ?prev) (tab_key 1) = None"
    by (rule after [THEN conjunct2, THEN conjunct2, THEN conjunct1])
  have q: "fst (getCurrentScan (Some ?tb) 31000 Rejected 31000 31001 True [] []
                 (scanUrl ?u 1 Rejected 30000 30001 ?prev)) = None"
    using t [THEN conjunct2, THEN conjunct2, THEN conjunct2, THEN conjunct2, THEN conjunct2,
             THEN conjunct1]
    by (simp add: s try_Rejected)
  have o: "ok ?resp" by (simp add: ok_def)
  have b: "body ?resp = Some unscored_result" by simp
  have m: "storage (scanUrl ?u 1 (Resolved ?resp) 30000 30001 ?prev) (tab_key 1) =
             Some (ScanV unscored_result)"
    by (rule t [THEN conjunct2, THEN conjunct2, THEN conjunct1, THEN mp, OF conjI [OF o b],
                THEN conjunct2])
  from p f i n q o b m show ?thesis
    by (intro conjI)
qed

text \<open>
  The claim as it is written fails in three places. An ok response whose JSON body has no
  score is not a failure: the scan settles it and the tab has an entry. After a scan of
  tab 1 has failed, a \<^verbatim>\<open>getCurrentScan\<close> query whose own scan gets an ok response with a
  result within the 1.5 seconds answers that result and not null. And when the query's own
  scan fails too, but another scan in flight for the tab settles its result before the
  read, the query answers the result of that other scan.
\<close>

theorem failed_scan_counterexample:
  "snd (scanUrl_try ''https://example.com/'' 1 (Resolved (Response 200 (Some unscored_result)))
          30000 30001 (run_writes initial_state sample_writes)) = Inr unscored_result
   \<and> storage (scanUrl ''https://example.com/'' 1 (Resolved (Response 200 (Some unscored_result)))
                30000 30001 (run_writes initial_state sample_writes)) (tab_key 1) =
       Some (ScanV unscored_result)
   \<and> snd (scanUrl_try ''https://example.com/'' 1 Rejected 30000 30001
          (run_writes initial_state sample_writes)) = Inl ApiNotReachable
   \<and> fst (getCurrentScan (Some \<lparr>tab_id = 1, tab_url = Some ''https://example.com/''\<rparr>) 31000
             (Resolved (Response 200 (Some (sample_result 55)))) 31000 31001 True [] []
             (scanUrl ''https://example.com/'' 1 Rejected 30000 30001
                (run_writes initial_state sample_writes))) = Some (ScanV (sample_result 55))
   \<and> fst (getCurrentScan (Some \<lparr>tab_id = 1, tab_url = Some ''https://example.com/''\<rparr>) 31000
             Rejected 31000 31001 True
             [Settled 1 ''https://example.com/old'' (sample_result 7) 31200 31201] []
             (scanUrl ''https://example.com/'' 1 Rejected 30000 30001
                (run_writes initial_state sample_writes))) = Some (ScanV (sample_result 7))"
proof -
  let ?u = "''https://example.com/''"
  let ?prev = "run_writes initial_state sample_writes"
  let ?tb = "\<lparr>tab_id = 1, tab_url = Some ?u\<rparr>"
  let ?resp = "Response 200 (Some (sample_result 55))"
  let ?bad = "Response 200 (Some unscored_result)"
  have ob: "ok ?bad" by (simp add: ok_def)
  have bb: "body ?bad = Some unscored_result" by simp
  have m1: "snd (scanUrl_try ?u 1 (Resolved ?bad) 30000 30001 ?prev) = Inr unscored_result"
    by (simp add: try_ok_json [OF ob bb])
  have m2: "storage (scanUrl ?u 1 (Resolved ?bad) 30000 30001 ?prev) (tab_key 1) =
              Some (ScanV unscored_result)"
    by (rule settled_tab_entry [OF m1])
  have f: "snd (scanUrl_try ?u 1 Rejected 30000 30001 ?prev) = Inl ApiNotReachable"
    by (simp add: try_Rejected)
  have s: "scanUrl ?u 1 Rejected 30000 30001 ?prev = scan_started 1 ?prev"
    by (rule scanUrl_failed [OF f])
  have o: "ok ?resp" by (simp add: ok_def)
  have b: "body ?resp = Some (sample_result 55)" by simp
  have n: "storage (scan_started (tab_id ?tb) ?prev) (tab_key (tab_id ?tb)) = None"
    by (simp add: scan_started_storage)
  have q: "fst (getCurrentScan (Some ?tb) 31000 (Resolved ?resp) 31000 31001 True [] []
                 (scanUrl ?u 1 Rejected 30000 30001 ?prev)) = Some (ScanV (sample_result 55))"
    using query_without_entry [OF n, of 31000 "Resolved ?resp" 31000 31001 True]
    by (simp add: s try_ok_json [OF o b])
  have nf: "\<not> fresh (scan_started 1 ?prev) (tab_id ?tb) 31000"
    by (simp add: not_fresh_started)
  have x: "fst (getCurrentScan (Some ?tb) 31000 Rejected 31000 31001 True
                 [Settled 1 ''https://example.com/old'' (sample_result 7) 31200 31201] []
                 (scanUrl ?u 1 Rejected 30000 30001 ?prev)) = Some (ScanV (sample_result 7))"
    using query_state [OF nf, of ?u Rejected 31000 31001 True
        "[Settled 1 ''https://example.com/old'' (sample_result 7) 31200 31201]" "[]"]
    by (simp add: s finish_event_def safeSetIcon_def settle_storage store_tab_entry)
  from m1 m2 f q x show ?thesis
    by (intro conjI)
qed


end
